theory Spec2Isabelle
  imports Complex_Main
begin

section \<open>Characters and strings\<close>

text \<open>
  A Python \<open>str\<close> is a sequence of code points. The texts this program reads are
  Spanish, so a string is modelled as a list of 8-bit characters read as Latin-1 code
  points (U+0000 to U+00FF): one \<open>char\<close> is one code point, and \<open>length\<close> counts
  what Python's \<open>len\<close> counts. The accented letters are written by code point:
  \<open>CHR 0xE1\<close> is a-acute, \<open>CHR 0xE9\<close> e-acute, \<open>CHR 0xED\<close> i-acute,
  \<open>CHR 0xF3\<close> o-acute, \<open>CHR 0xF1\<close> n-tilde.
\<close>

definition codigo :: "char \<Rightarrow> nat" where
  "codigo c = of_char c"

text \<open>\<open>str.isspace\<close>, which is also the class \<open>\s\<close> of \<open>re\<close> and what \<open>str.split()\<close>
  and \<open>str.strip()\<close> cut at.\<close>

definition es_espacio :: "char \<Rightarrow> bool" where
  "es_espacio c =
     (let n = codigo c in (9 \<le> n \<and> n \<le> 13) \<or> (28 \<le> n \<and> n \<le> 32) \<or> n = 133 \<or> n = 160)"

text \<open>\<open>string.punctuation\<close>: the 32 ASCII punctuation characters.\<close>

definition es_puntuacion :: "char \<Rightarrow> bool" where
  "es_puntuacion c =
     (let n = codigo c in (33 \<le> n \<and> n \<le> 47) \<or> (58 \<le> n \<and> n \<le> 64) \<or>
                          (91 \<le> n \<and> n \<le> 96) \<or> (123 \<le> n \<and> n \<le> 126))"

text \<open>The class \<open>\d\<close> (decimal digits; within Latin-1 these are 0 to 9).\<close>

definition es_digito :: "char \<Rightarrow> bool" where
  "es_digito c = (let n = codigo c in 48 \<le> n \<and> n \<le> 57)"

text \<open>The class \<open>\w\<close>: \<open>str.isalnum\<close> or the underscore.\<close>

definition es_palabra :: "char \<Rightarrow> bool" where
  "es_palabra c =
     (let n = codigo c in
        (48 \<le> n \<and> n \<le> 57) \<or> (65 \<le> n \<and> n \<le> 90) \<or> n = 95 \<or> (97 \<le> n \<and> n \<le> 122) \<or>
        n = 170 \<or> n = 178 \<or> n = 179 \<or> n = 181 \<or> n = 185 \<or> n = 186 \<or>
        (188 \<le> n \<and> n \<le> 190) \<or> (192 \<le> n \<and> n \<le> 214) \<or> (216 \<le> n \<and> n \<le> 246) \<or>
        (248 \<le> n \<and> n \<le> 255))"

text \<open>\<open>str.lower\<close> on one code point: A to Z and the Latin-1 capitals U+00C0 to U+00DE
  (the multiplication sign U+00D7 apart) move up by 32.\<close>

definition minuscula :: "char \<Rightarrow> char" where
  "minuscula c =
     (let n = codigo c in
        if (65 \<le> n \<and> n \<le> 90) \<or> (192 \<le> n \<and> n \<le> 222 \<and> n \<noteq> 215)
        then char_of (n + 32) else c)"

definition lower :: "string \<Rightarrow> string" where
  "lower s = map minuscula s"

text \<open>A string that \<open>str.capitalize\<close> builds can hold a code point beyond Latin-1; such
  a string is a list of code points.\<close>

type_synonym unicode = "nat list"

definition codigos :: "string \<Rightarrow> unicode" where
  "codigos s = map codigo s"

text \<open>The title-case form of a first character, as \<open>str.capitalize\<close> computes it
  (Python 3.8 and later): a to z and U+00E0 to U+00FE (the division sign U+00F7 apart) move
  down by 32, the sharp s U+00DF becomes \<open>Ss\<close>, the micro sign U+00B5 becomes the Greek
  capital mu U+039C, and y-diaeresis U+00FF becomes U+0178.\<close>

definition mayuscula_inicial :: "char \<Rightarrow> unicode" where
  "mayuscula_inicial c =
     (let n = codigo c in
        if (97 \<le> n \<and> n \<le> 122) \<or> (224 \<le> n \<and> n \<le> 254 \<and> n \<noteq> 247) then [n - 32]
        else if n = 223 then [83, 115]
        else if n = 181 then [924]
        else if n = 255 then [376]
        else [n])"

text \<open>\<open>str.capitalize\<close>: the first character in title case, all the others in lower case.\<close>

fun capitalize :: "string \<Rightarrow> unicode" where
  "capitalize [] = []"
| "capitalize (c # cs) = mayuscula_inicial c @ codigos (map minuscula cs)"

text \<open>\<open>str.strip()\<close>.\<close>

definition strip :: "string \<Rightarrow> string" where
  "strip s = rev (dropWhile es_espacio (rev (dropWhile es_espacio s)))"

text \<open>\<open>str.split()\<close>: the maximal runs of non-whitespace characters, in order.
  The first argument is the word being read.\<close>

fun split_desde :: "string \<Rightarrow> string \<Rightarrow> string list" where
  "split_desde w [] = (if w = [] then [] else [w])"
| "split_desde w (c # cs) =
     (if es_espacio c then (if w = [] then split_desde [] cs else w # split_desde [] cs)
      else split_desde (w @ [c]) cs)"

definition split :: "string \<Rightarrow> string list" where
  "split s = split_desde [] s"

text \<open>\<open>re.sub(r'\s+', ' ', texto)\<close>: every maximal run of whitespace becomes one space.
  The flag says that the previous character was whitespace.\<close>

fun colapsar_espacios :: "bool \<Rightarrow> string \<Rightarrow> string" where
  "colapsar_espacios _ [] = []"
| "colapsar_espacios previo (c # cs) =
     (if es_espacio c
      then (if previo then colapsar_espacios True cs else CHR '' '' # colapsar_espacios True cs)
      else c # colapsar_espacios False cs)"

text \<open>\<open>x in s\<close> for strings: \<open>x\<close> occurs in \<open>s\<close> as a contiguous substring.\<close>

fun empieza_con :: "string \<Rightarrow> string \<Rightarrow> bool" where
  "empieza_con [] _ = True"
| "empieza_con (x # xs) [] = False"
| "empieza_con (x # xs) (c # cs) = (x = c \<and> empieza_con xs cs)"

fun contiene :: "string \<Rightarrow> string \<Rightarrow> bool" where
  "contiene [] x = (x = [])"
| "contiene (c # cs) x = (empieza_con x (c # cs) \<or> contiene cs x)"

section \<open>Language processing (nexus\_local.py)\<close>

text \<open>\<open>STOPWORDS_ES\<close>, a set literal; membership is all the program asks of it.\<close>

definition STOPWORDS_ES :: "string list" where
  "STOPWORDS_ES =
     [''el'', ''la'', ''de'', ''que'', ''y'', ''a'', ''en'', ''un'', ''ser'', ''se'',
      ''no'', ''haber'', ''por'', ''con'', ''su'', ''para'', ''es'', ''o'', ''como'',
      ''estar'', ''tener'', ''le'', ''lo'', ''todo'', ''pero'', ''m'' @ [CHR 0xE1] @ ''s'', ''hacer'',
      ''poder'', ''decir'', ''este'', ''ir'', ''otro'', ''ese'', ''esta'', ''son'',
      ''los'', ''las'', ''del'', ''al'', ''desde'', ''hasta'', ''me'', ''te'', ''nos'']"

definition normalizar_texto :: "string \<Rightarrow> string" where
  "normalizar_texto texto =
     lower (strip (colapsar_espacios False (filter (\<lambda>c. \<not> es_puntuacion c) texto)))"

definition tokenizar :: "string \<Rightarrow> string list" where
  "tokenizar texto = split (normalizar_texto texto)"

definition remover_stopwords :: "string list \<Rightarrow> string list" where
  "remover_stopwords tokens = filter (\<lambda>t. t \<notin> set STOPWORDS_ES) tokens"

text \<open>\<open>list.index\<close>, called only on a list that holds the element.\<close>

fun indice :: "'a list \<Rightarrow> 'a \<Rightarrow> nat" where
  "indice [] _ = 0"
| "indice (t # ts) x = (if t = x then 0 else Suc (indice ts x))"

definition negaciones :: "string list" where
  "negaciones = [''no'', ''nunca'', ''jam'' @ [CHR 0xE1] @ ''s'', ''nada'', ''ni'']"

text \<open>\<open>tiene_negacion(tokens, palabra, ventana=3)\<close>. The window is
  \<open>range(max(0, idx - ventana), min(len(tokens), idx + ventana))\<close>.\<close>

definition tiene_negacion :: "string list \<Rightarrow> string \<Rightarrow> nat \<Rightarrow> bool" where
  "tiene_negacion tokens palabra ventana =
     (if palabra \<notin> set tokens then False
      else
        let idx = indice tokens palabra;
            inicio = nat (max 0 (int idx - int ventana));
            fin = min (length tokens) (idx + ventana)
        in list_ex (\<lambda>i. tokens ! i \<in> set negaciones) [inicio..<fin])"

section \<open>Fuzzy matching (difflib.SequenceMatcher)\<close>

text \<open>
  \<open>SequenceMatcher(None, a, b).ratio()\<close> is library code; the model follows the algorithm
  of the library: the index of \<open>b\<close> without its popular elements, the longest matching
  block and its extension, the recursion to the left and to the right of the block, and
  \<open>2.0 * M / T\<close> with \<open>M\<close> the total size of the blocks and \<open>T\<close> the two lengths
  together, 1 when \<open>T = 0\<close>. The argument \<open>isjunk\<close> is \<open>None\<close>: there is no junk.
  The quotient is a rational number here: for sequences shorter than \<open>2^26\<close> elements two
  different quotients, and a quotient and 0.75, differ by more than the rounding of a
  double, so every comparison the program makes has the same outcome.
\<close>

text \<open>The length of the longest common prefix.\<close>

fun prefijo_comun :: "'a list \<Rightarrow> 'a list \<Rightarrow> nat" where
  "prefijo_comun (x # xs) (y # ys) = (if x = y then Suc (prefijo_comun xs ys) else 0)"
| "prefijo_comun _ _ = 0"

text \<open>The popular elements of \<open>b\<close> (\<open>__chain_b\<close> with \<open>autojunk\<close> on): when \<open>b\<close> has 200
  elements or more, those that occur more than \<open>len(b) // 100 + 1\<close> times. They are taken
  out of the index \<open>b2j\<close>, so no block found by the main loop contains one.\<close>

definition populares :: "'a list \<Rightarrow> 'a list" where
  "populares b =
     (let n = length b
      in if n \<ge> 200
         then (let ntest = n div 100 + 1 in filter (\<lambda>elt. count_list b elt > ntest) (remdups b))
         else [])"

text \<open>The length of the longest common prefix made of elements that are not popular.\<close>

fun prefijo_libre :: "'a list \<Rightarrow> 'a list \<Rightarrow> 'a list \<Rightarrow> nat" where
  "prefijo_libre popular (x # xs) (y # ys) =
     (if x = y \<and> y \<notin> set popular then Suc (prefijo_libre popular xs ys) else 0)"
| "prefijo_libre popular _ _ = 0"

text \<open>The main loop of \<open>find_longest_match\<close>: of the longest blocks without popular
  elements the one that starts earliest in \<open>a\<close>, and of those the one that starts earliest
  in \<open>b\<close> (the loop runs over \<open>i\<close>, then over \<open>j\<close>, and replaces the best block only by
  a strictly longer one); \<open>(0, 0, 0)\<close> when there is none.\<close>

definition bloque_libre :: "'a list \<Rightarrow> 'a list \<Rightarrow> 'a list \<Rightarrow> nat \<times> nat \<times> nat" where
  "bloque_libre popular a b =
     fold (\<lambda>i. fold (\<lambda>j best.
                let k = prefijo_libre popular (drop i a) (drop j b)
                in if k > snd (snd best) then (i, j, k) else best) [0..<length b])
          [0..<length a] (0, 0, 0)"

text \<open>\<open>find_longest_match\<close> on whole sequences: the block of the main loop, extended
  backwards and then forwards over all matching elements, popular or not (the first two
  \<open>while\<close> loops; the two loops for junk never run, there is no junk).\<close>

definition find_longest_match :: "'a list \<Rightarrow> 'a list \<Rightarrow> 'a list \<Rightarrow> nat \<times> nat \<times> nat" where
  "find_longest_match popular a b =
     (let best = bloque_libre popular a b;
          besti = fst best; bestj = fst (snd best); bestsize = snd (snd best);
          atras = prefijo_comun (rev (take besti a)) (rev (take bestj b));
          adelante = prefijo_comun (drop (besti + bestsize) a) (drop (bestj + bestsize) b)
      in (besti - atras, bestj - atras, bestsize + atras + adelante))"

lemma prefijo_comun_le: "prefijo_comun xs ys \<le> length xs \<and> prefijo_comun xs ys \<le> length ys"
  by (induction xs ys rule: prefijo_comun.induct) auto

lemma prefijo_libre_le:
  "prefijo_libre p xs ys \<le> length xs \<and> prefijo_libre p xs ys \<le> length ys"
  by (induction p xs ys rule: prefijo_libre.induct) auto

lemma fold_invariante:
  "P s \<Longrightarrow> (\<And>x s. x \<in> set xs \<Longrightarrow> P s \<Longrightarrow> P (f x s)) \<Longrightarrow> P (fold f xs s)"
  by (induction xs arbitrary: s) auto

lemma bloque_libre_cotas:
  "fst (bloque_libre p a b) + snd (snd (bloque_libre p a b)) \<le> length a \<and>
   fst (snd (bloque_libre p a b)) + snd (snd (bloque_libre p a b)) \<le> length b"
  unfolding bloque_libre_def
proof (rule fold_invariante [where P = "\<lambda>m. fst m + snd (snd m) \<le> length a \<and> fst (snd m) + snd (snd m) \<le> length b"], goal_cases)
  case 1
  then show ?case by simp
next
  case (2 i s)
  show ?case
  proof (rule fold_invariante [where P = "\<lambda>m. fst m + snd (snd m) \<le> length a \<and> fst (snd m) + snd (snd m) \<le> length b"], goal_cases)
    case 1
    then show ?case using 2 by simp
  next
    case (2 j t)
    have "prefijo_libre p (drop i a) (drop j b) \<le> length a - i"
         "prefijo_libre p (drop i a) (drop j b) \<le> length b - j"
      using prefijo_libre_le [of p "drop i a" "drop j b"] by simp_all
    moreover have "i < length a" "j < length b" using 2 \<open>i \<in> set [0..<length a]\<close> by simp_all
    ultimately show ?case using 2 by (auto simp: Let_def)
  qed
qed

lemma find_longest_match_cotas:
  "fst (find_longest_match p a b) + snd (snd (find_longest_match p a b)) \<le> length a \<and>
   fst (snd (find_longest_match p a b)) + snd (snd (find_longest_match p a b)) \<le> length b"
proof -
  define best where "best = bloque_libre p a b"
  define i where "i = fst best"
  define j where "j = fst (snd best)"
  define k where "k = snd (snd best)"
  define e where "e = prefijo_comun (rev (take i a)) (rev (take j b))"
  define e' where "e' = prefijo_comun (drop (i + k) a) (drop (j + k) b)"
  have c: "i + k \<le> length a" "j + k \<le> length b"
    using bloque_libre_cotas [of p a b] by (simp_all add: i_def j_def k_def best_def)
  have "e \<le> length (rev (take i a))" "e \<le> length (rev (take j b))"
    using prefijo_comun_le [of "rev (take i a)" "rev (take j b)"] by (simp_all add: e_def)
  then have e: "e \<le> i" "e \<le> j" using c by simp_all
  have "e' \<le> length (drop (i + k) a)" "e' \<le> length (drop (j + k) b)"
    using prefijo_comun_le [of "drop (i + k) a" "drop (j + k) b"] by (simp_all add: e'_def)
  then have e': "e' \<le> length a - (i + k)" "e' \<le> length b - (j + k)" by simp_all
  have "find_longest_match p a b = (i - e, j - e, k + e + e')"
    by (simp add: find_longest_match_def Let_def best_def i_def j_def k_def e_def e'_def)
  moreover have "(i - e) + (k + e + e') \<le> length a" "(j - e) + (k + e + e') \<le> length b"
    using c e e' by linarith+
  ultimately show ?thesis by simp
qed

text \<open>The total size of the matching blocks,
  \<open>sum(triple[-1] for triple in get_matching_blocks())\<close>: the block found, and the blocks of
  what lies to its left and to its right. The popular elements are those of the whole \<open>b\<close>.\<close>

function coincidencias :: "'a list \<Rightarrow> 'a list \<Rightarrow> 'a list \<Rightarrow> nat" where
  "coincidencias popular a b =
     (let m = find_longest_match popular a b; i = fst m; j = fst (snd m); k = snd (snd m)
      in if k = 0 then 0
         else k + coincidencias popular (take i a) (take j b)
                + coincidencias popular (drop (i + k) a) (drop (j + k) b))"
  by pat_completeness auto
termination
proof (relation "measure (\<lambda>(p, a, b). length a)", goal_cases)
  case 1
  then show ?case by simp
next
  case (2 p a b m i j k)
  then show ?case using find_longest_match_cotas [of p a b] by simp
next
  case (3 p a b m i j k)
  then have "0 < i + k" "i + k \<le> length a"
    using find_longest_match_cotas [of p a b] by simp_all
  then show ?case by simp arith
qed

declare coincidencias.simps [simp del]

text \<open>\<open>SequenceMatcher(None, a, b).ratio()\<close>.\<close>

definition ratio :: "'a list \<Rightarrow> 'a list \<Rightarrow> rat" where
  "ratio a b =
     (let matches = coincidencias (populares b) a b;
          total = length a + length b
      in if total = 0 then 1 else 2 * of_nat matches / of_nat total)"


text \<open>The loop of \<open>buscar_concepto_fuzzy\<close> that fills the list \<open>mejores\<close>.\<close>

fun mejores_de :: "string \<Rightarrow> string list \<Rightarrow> rat \<Rightarrow> (string \<times> rat) list" where
  "mejores_de entrada_norm [] umbral = []"
| "mejores_de entrada_norm (opcion # resto) umbral =
     (let opcion_norm = normalizar_texto opcion;
          similitud = ratio entrada_norm opcion_norm
      in if similitud \<ge> umbral then (opcion, similitud) # mejores_de entrada_norm resto umbral
         else mejores_de entrada_norm resto umbral)"

text \<open>\<open>max(mejores, key=lambda x: x[1])\<close>: the first element whose key is maximal.\<close>

fun max_similitud :: "(string \<times> rat) \<Rightarrow> (string \<times> rat) list \<Rightarrow> string \<times> rat" where
  "max_similitud mejor [] = mejor"
| "max_similitud mejor (x # xs) = max_similitud (if snd x > snd mejor then x else mejor) xs"

definition buscar_concepto_fuzzy :: "string \<Rightarrow> string list \<Rightarrow> rat \<Rightarrow> string option" where
  "buscar_concepto_fuzzy entrada opciones umbral =
     (let entrada_norm = normalizar_texto entrada;
          mejores = mejores_de entrada_norm opciones umbral
      in case mejores of [] \<Rightarrow> None | m # ms \<Rightarrow> Some (fst (max_similitud m ms)))"

text \<open>The similarity the loop computes for one candidate.\<close>

definition similitud_de :: "string \<Rightarrow> string \<Rightarrow> rat" where
  "similitud_de entrada opcion = ratio (normalizar_texto entrada) (normalizar_texto opcion)"

lemma coincidencias_le: "coincidencias p a b \<le> length a \<and> coincidencias p a b \<le> length b"
proof (induction p a b rule: coincidencias.induct)
  case (1 p a b)
  define m where "m = find_longest_match p a b"
  define i where "i = fst m"
  define j where "j = fst (snd m)"
  define k where "k = snd (snd m)"
  show ?case
  proof (cases "k = 0")
    case True
    then show ?thesis
      using coincidencias.simps [of p a b] by (simp add: Let_def m_def k_def)
  next
    case False
    have cotas: "i + k \<le> length a" "j + k \<le> length b"
      using find_longest_match_cotas [of p a b] by (simp_all add: i_def j_def k_def m_def)
    have izq: "coincidencias p (take i a) (take j b) \<le> i" "coincidencias p (take i a) (take j b) \<le> j"
      using "1.IH"(1) [OF m_def i_def j_def k_def False] cotas by simp_all
    have der: "coincidencias p (drop (i + k) a) (drop (j + k) b) \<le> length a - (i + k)"
              "coincidencias p (drop (i + k) a) (drop (j + k) b) \<le> length b - (j + k)"
      using "1.IH"(2) [OF m_def i_def j_def k_def False] by simp_all
    have "coincidencias p a b = k + coincidencias p (take i a) (take j b)
                                + coincidencias p (drop (i + k) a) (drop (j + k) b)"
      using False coincidencias.simps [of p a b] by (simp add: Let_def m_def i_def j_def k_def)
    then show ?thesis using izq der cotas by linarith
  qed
qed

lemma ratio_rango: "0 \<le> ratio a b \<and> ratio a b \<le> 1"
proof (cases "length a + length b = 0")
  case True
  then show ?thesis by (simp add: ratio_def)
next
  case False
  define total where "total = length a + length b"
  define n where "n = coincidencias (populares b) a b"
  have r: "ratio a b = of_nat (2 * n) / of_nat total"
    using False by (simp add: ratio_def Let_def total_def n_def)
  have "2 * n \<le> total"
    using coincidencias_le [of "populares b" a b] unfolding total_def n_def by linarith
  then have le: "(of_nat (2 * n) :: rat) \<le> of_nat total"
    by (simp only: of_nat_le_iff)
  have "0 < total" using False by (simp add: total_def)
  then have pos: "(0::rat) < of_nat total"
    by (simp only: of_nat_0_less_iff)
  have "(0::rat) \<le> of_nat (2 * n) / of_nat total"
    by (rule divide_nonneg_nonneg) simp_all
  moreover have "(of_nat (2 * n) :: rat) / of_nat total \<le> 1"
    using le pos by (simp only: divide_le_eq_1_pos)
  ultimately show ?thesis using r by simp
qed


lemma prefijo_libre_nil: "prefijo_libre [] xs ys = prefijo_comun xs ys"
  by (induction xs ys rule: prefijo_comun.induct) auto

lemma prefijo_comun_refl: "prefijo_comun xs xs = length xs"
  by (induction xs) auto

lemma bloque_libre_refl:
  assumes "a \<noteq> []"
  shows "bloque_libre [] a a = (0, 0, length a)"
proof -
  let ?n = "length a"
  let ?g = "\<lambda>i j best. let k = prefijo_libre [] (drop i a) (drop j a)
                         in if k > snd (snd best) then (i, j, k) else best"
  have n: "0 < ?n" using assms by simp
  have paso: "?g i j (0, 0, ?n) = (0, 0, ?n)" for i j
  proof -
    have "prefijo_comun (drop i a) (drop j a) \<le> ?n"
      using prefijo_comun_le [of "drop i a" "drop j a"] by simp arith
    then show ?thesis by (simp add: Let_def prefijo_libre_nil)
  qed
  have interno: "fold (?g i) js (0, 0, ?n) = (0, 0, ?n)" for i js
  proof (rule fold_invariante [where P = "\<lambda>m. m = (0, 0, ?n)"], goal_cases)
    case 1
    show ?case by (rule refl)
  next
    case (2 x s)
    then show ?case using paso [of i x] by (simp only:)
  qed
  have externo: "fold (\<lambda>i. fold (?g i) [0..<?n]) is (0, 0, ?n) = (0, 0, ?n)" for "is"
  proof (rule fold_invariante [where P = "\<lambda>m. m = (0, 0, ?n)"], goal_cases)
    case 1
    show ?case by (rule refl)
  next
    case (2 x s)
    then show ?case using interno [of x "[0..<?n]"] by (simp only:)
  qed
  have u: "[0..<?n] = 0 # [1..<?n]" using n by (simp add: upt_conv_Cons)
  have primero: "?g 0 0 (0, 0, 0) = (0, 0, ?n)"
    using n by (simp add: Let_def prefijo_libre_nil prefijo_comun_refl)
  have "fold (?g 0) [0..<?n] (0, 0, 0) = fold (?g 0) [1..<?n] (?g 0 0 (0, 0, 0))"
    by (subst u) simp
  also have "\<dots> = (0, 0, ?n)" unfolding primero by (rule interno)
  finally have fila: "fold (?g 0) [0..<?n] (0, 0, 0) = (0, 0, ?n)" .
  have "bloque_libre [] a a =
          fold (\<lambda>i. fold (?g i) [0..<?n]) [1..<?n] (fold (?g 0) [0..<?n] (0, 0, 0))"
    unfolding bloque_libre_def by (subst (2) u) simp
  also have "\<dots> = (0, 0, ?n)" unfolding fila by (rule externo)
  finally show ?thesis .
qed

lemma coincidencias_refl: "coincidencias [] a a = length a"
proof (cases "a = []")
  case True
  then show ?thesis
    using coincidencias.simps [of "[]" "[]" "[]"]
    by (simp add: find_longest_match_def bloque_libre_def Let_def)
next
  case False
  have f: "find_longest_match [] a a = (0, 0, length a)"
    using bloque_libre_refl [OF False] by (simp add: find_longest_match_def Let_def)
  have v: "coincidencias [] [] [] = 0"
    using coincidencias.simps [of "[]" "[]" "[]"]
    by (simp add: find_longest_match_def bloque_libre_def Let_def)
  show ?thesis
    using False coincidencias.simps [of "[]" a a] by (simp add: f Let_def v)
qed

lemma ratio_refl:
  assumes "length a < 200"
  shows "ratio a a = 1"
proof -
  have "populares a = []" using assms by (simp add: populares_def Let_def)
  then show ?thesis
    by (simp add: ratio_def Let_def coincidencias_refl)
qed

lemma mejores_de_filter:
  "mejores_de (normalizar_texto e) ops u =
     map (\<lambda>opc. (opc, similitud_de e opc)) (filter (\<lambda>opc. u \<le> similitud_de e opc) ops)"
  by (induction ops) (simp_all add: similitud_de_def Let_def)

lemma max_similitud_primero:
  "max_similitud x ys = r \<Longrightarrow>
     (r = x \<and> (\<forall>y \<in> set ys. snd y \<le> snd x)) \<or>
     (\<exists>pre post. ys = pre @ r # post \<and> snd x < snd r \<and>
        (\<forall>p \<in> set pre. snd p < snd r) \<and> (\<forall>q \<in> set post. snd q \<le> snd r))"
proof (induction ys arbitrary: x)
  case Nil
  then show ?case by simp
next
  case (Cons y ys)
  show ?case
  proof (cases "snd y > snd x")
    case True
    then have "max_similitud y ys = r" using Cons.prems by simp
    from Cons.IH [OF this] show ?thesis
    proof
      assume h: "r = y \<and> (\<forall>z \<in> set ys. snd z \<le> snd y)"
      then have "y # ys = [] @ r # ys \<and> snd x < snd r \<and>
                 (\<forall>p \<in> set []. snd p < snd r) \<and> (\<forall>q \<in> set ys. snd q \<le> snd r)"
        using True by simp
      then show ?thesis by blast
    next
      assume "\<exists>pre post. ys = pre @ r # post \<and> snd y < snd r \<and>
                (\<forall>p \<in> set pre. snd p < snd r) \<and> (\<forall>q \<in> set post. snd q \<le> snd r)"
      then obtain pre post where h: "ys = pre @ r # post" "snd y < snd r"
          "\<forall>p \<in> set pre. snd p < snd r" "\<forall>q \<in> set post. snd q \<le> snd r" by blast
      then have "y # ys = (y # pre) @ r # post \<and> snd x < snd r \<and>
                 (\<forall>p \<in> set (y # pre). snd p < snd r) \<and> (\<forall>q \<in> set post. snd q \<le> snd r)"
        using True by auto
      then show ?thesis by blast
    qed
  next
    case False
    then have "max_similitud x ys = r" using Cons.prems by simp
    from Cons.IH [OF this] show ?thesis
    proof
      assume "r = x \<and> (\<forall>z \<in> set ys. snd z \<le> snd x)"
      then show ?thesis using False by auto
    next
      assume "\<exists>pre post. ys = pre @ r # post \<and> snd x < snd r \<and>
                (\<forall>p \<in> set pre. snd p < snd r) \<and> (\<forall>q \<in> set post. snd q \<le> snd r)"
      then obtain pre post where h: "ys = pre @ r # post" "snd x < snd r"
          "\<forall>p \<in> set pre. snd p < snd r" "\<forall>q \<in> set post. snd q \<le> snd r" by blast
      then have "y # ys = (y # pre) @ r # post \<and> snd x < snd r \<and>
                 (\<forall>p \<in> set (y # pre). snd p < snd r) \<and> (\<forall>q \<in> set post. snd q \<le> snd r)"
        using False by auto
      then show ?thesis by blast
    qed
  qed
qed

lemma max_similitud_particion:
  "max_similitud x ys = r \<Longrightarrow>
     \<exists>pre post. x # ys = pre @ r # post \<and>
        (\<forall>p \<in> set pre. snd p < snd r) \<and> (\<forall>q \<in> set post. snd q \<le> snd r)"
proof -
  assume "max_similitud x ys = r"
  from max_similitud_primero [OF this] show ?thesis
  proof
    assume "r = x \<and> (\<forall>y \<in> set ys. snd y \<le> snd x)"
    then have "x # ys = [] @ r # ys \<and> (\<forall>p \<in> set []. snd p < snd r) \<and> (\<forall>q \<in> set ys. snd q \<le> snd r)"
      by simp
    then show ?thesis by blast
  next
    assume "\<exists>pre post. ys = pre @ r # post \<and> snd x < snd r \<and>
              (\<forall>p \<in> set pre. snd p < snd r) \<and> (\<forall>q \<in> set post. snd q \<le> snd r)"
    then obtain pre post where h: "ys = pre @ r # post" "snd x < snd r"
        "\<forall>p \<in> set pre. snd p < snd r" "\<forall>q \<in> set post. snd q \<le> snd r" by blast
    then have "x # ys = (x # pre) @ r # post \<and> (\<forall>p \<in> set (x # pre). snd p < snd r) \<and>
               (\<forall>q \<in> set post. snd q \<le> snd r)" by auto
    then show ?thesis by blast
  qed
qed

lemma filter_eq_append_Cons:
  "filter P ys = us @ x # vs \<Longrightarrow>
     \<exists>ys1 ys2. ys = ys1 @ x # ys2 \<and> filter P ys1 = us \<and> P x \<and> filter P ys2 = vs"
proof (induction ys arbitrary: us)
  case Nil
  then show ?case by simp
next
  case (Cons y ys)
  show ?case
  proof (cases "P y")
    case False
    then have "filter P ys = us @ x # vs" using Cons.prems by simp
    from Cons.IH [OF this] obtain ys1 ys2 where
      "ys = ys1 @ x # ys2" "filter P ys1 = us" "P x" "filter P ys2 = vs" by blast
    then have "y # ys = (y # ys1) @ x # ys2 \<and> filter P (y # ys1) = us \<and> P x \<and> filter P ys2 = vs"
      using False by simp
    then show ?thesis by blast
  next
    case True
    show ?thesis
    proof (cases us)
      case Nil
      then have "y = x" "filter P ys = vs" using Cons.prems True by simp_all
      then have "y # ys = [] @ x # ys \<and> filter P [] = us \<and> P x \<and> filter P ys = vs"
        using Nil True by simp
      then show ?thesis by blast
    next
      case (Cons u us')
      then have "y = u" "filter P ys = us' @ x # vs" using Cons.prems True by simp_all
      from Cons.IH [OF this(2)] obtain ys1 ys2 where
        "ys = ys1 @ x # ys2" "filter P ys1 = us'" "P x" "filter P ys2 = vs" by blast
      then have "y # ys = (y # ys1) @ x # ys2 \<and> filter P (y # ys1) = us \<and> P x \<and> filter P ys2 = vs"
        using True Cons \<open>y = u\<close> by simp
      then show ?thesis by blast
    qed
  qed
qed

lemma buscar_None_iff:
  "buscar_concepto_fuzzy e ops u = None \<longleftrightarrow> (\<forall>opc \<in> set ops. similitud_de e opc < u)"
proof -
  have "buscar_concepto_fuzzy e ops u = None \<longleftrightarrow>
          filter (\<lambda>opc. u \<le> similitud_de e opc) ops = []"
    by (cases "filter (\<lambda>opc. u \<le> similitud_de e opc) ops")
       (simp_all add: buscar_concepto_fuzzy_def Let_def mejores_de_filter)
  also have "\<dots> \<longleftrightarrow> (\<forall>opc \<in> set ops. \<not> u \<le> similitud_de e opc)"
    by (simp add: filter_empty_conv)
  finally show ?thesis by (simp add: not_le)
qed

lemma buscar_Some_primero_maximo:
  assumes "buscar_concepto_fuzzy e ops u = Some c"
  shows "\<exists>pre post. ops = pre @ c # post \<and> u \<le> similitud_de e c \<and>
           (\<forall>p \<in> set pre. similitud_de e p < similitud_de e c) \<and>
           (\<forall>q \<in> set post. similitud_de e q \<le> similitud_de e c)"
proof -
  let ?P = "\<lambda>opc. u \<le> similitud_de e opc"
  let ?f = "\<lambda>opc. (opc, similitud_de e opc)"
  obtain m ms where mm: "map ?f (filter ?P ops) = m # ms" and c: "c = fst (max_similitud m ms)"
    using assms by (auto simp: buscar_concepto_fuzzy_def Let_def mejores_de_filter split: list.splits)
  obtain pre post where pp: "m # ms = pre @ max_similitud m ms # post"
      "\<forall>p \<in> set pre. snd p < snd (max_similitud m ms)"
      "\<forall>q \<in> set post. snd q \<le> snd (max_similitud m ms)"
    using max_similitud_particion [OF refl, of m ms] by blast
  have "max_similitud m ms \<in> set (map ?f (filter ?P ops))"
    using mm pp(1) by simp
  then have r: "max_similitud m ms = ?f c" using c by auto
  have "map ?f (filter ?P ops) = pre @ ?f c # post" using mm pp(1) r by simp
  then obtain fs1 fs2 where fs: "filter ?P ops = fs1 @ c # fs2" "map ?f fs1 = pre" "map ?f fs2 = post"
    by (auto simp: map_eq_append_conv map_eq_Cons_conv)
  from filter_eq_append_Cons [OF fs(1)] obtain o1 o2 where
    oo: "ops = o1 @ c # o2" "filter ?P o1 = fs1" "?P c" "filter ?P o2 = fs2" by blast
  have antes: "similitud_de e p < similitud_de e c" if "p \<in> set o1" for p
  proof (cases "?P p")
    case True
    then have "p \<in> set fs1" using that oo(2) by auto
    then have "?f p \<in> set pre" using fs(2) by auto
    then show ?thesis using pp(2) r by auto
  next
    case False
    then show ?thesis using oo(3) by simp
  qed
  have despues: "similitud_de e q \<le> similitud_de e c" if "q \<in> set o2" for q
  proof (cases "?P q")
    case True
    then have "q \<in> set fs2" using that oo(4) by auto
    then have "?f q \<in> set post" using fs(3) by auto
    then show ?thesis using pp(3) r by auto
  next
    case False
    then show ?thesis using oo(3) by simp
  qed
  show ?thesis using oo(1,3) antes despues by blast
qed


section \<open>Dates (nexus\_local.py, datetime, calendar)\<close>

text \<open>
  A \<open>datetime\<close> is modelled by its date: every use the program makes of one goes
  through \<open>.year\<close>, \<open>.month\<close>, \<open>.day\<close>, \<open>.date()\<close>, \<open>.weekday()\<close>,
  \<open>strftime("%Y-%m-%d")\<close> or the addition of a whole number of days, and none of these
  reads or changes the time of day.
\<close>

record datetime =
  year :: int
  month :: int
  day :: int

text \<open>The exceptions the interpreter can raise.\<close>

datatype error = ValueError | OverflowError | EOFError

text \<open>\<open>calendar.isleap\<close>.\<close>

definition isleap :: "int \<Rightarrow> bool" where
  "isleap y = (y mod 4 = 0 \<and> (y mod 100 \<noteq> 0 \<or> y mod 400 = 0))"

text \<open>\<open>calendar.monthrange(year, month)[1]\<close>, for a month from 1 to 12.\<close>

definition dias_del_mes :: "int \<Rightarrow> int \<Rightarrow> int" where
  "dias_del_mes y m =
     (if m = 2 then (if isleap y then 29 else 28)
      else if m = 4 \<or> m = 6 \<or> m = 9 \<or> m = 11 then 30 else 31)"

text \<open>What every \<open>datetime\<close> object satisfies: the constructor raises \<open>ValueError\<close>
  otherwise (\<open>MINYEAR = 1\<close>, \<open>MAXYEAR = 9999\<close>).\<close>

definition fecha_valida :: "datetime \<Rightarrow> bool" where
  "fecha_valida d =
     (1 \<le> year d \<and> year d \<le> 9999 \<and> 1 \<le> month d \<and> month d \<le> 12 \<and>
      1 \<le> day d \<and> day d \<le> dias_del_mes (year d) (month d))"

text \<open>\<open>a.date() < b.date()\<close>.\<close>

definition fecha_menor :: "datetime \<Rightarrow> datetime \<Rightarrow> bool" where
  "fecha_menor a b =
     (year a < year b \<or>
      (year a = year b \<and> (month a < month b \<or> (month a = month b \<and> day a < day b))))"

definition clamp_day :: "int \<Rightarrow> int \<Rightarrow> int \<Rightarrow> int" where
  "clamp_day y m d = (let last = dias_del_mes y m in min d last)"

text \<open>\<open>_safe_date\<close>; \<open>None\<close> stands for the exception that \<open>monthrange\<close> (month out of
  range) or the \<open>datetime\<close> constructor (year out of range, day below 1) raises.\<close>

definition safe_date :: "int \<Rightarrow> int \<Rightarrow> int \<Rightarrow> datetime option" where
  "safe_date y m d =
     (if m < 1 \<or> 12 < m then None
      else
        let d' = clamp_day y m d
        in if 1 \<le> y \<and> y \<le> 9999 \<and> 1 \<le> d' then Some \<lparr>year = y, month = m, day = d'\<rparr> else None)"

text \<open>\<open>datetime.toordinal()\<close> and \<open>datetime.weekday()\<close> (Monday is 0), as the
  library defines them.\<close>

definition days_before_year :: "int \<Rightarrow> int" where
  "days_before_year y = (let p = y - 1 in p * 365 + p div 4 - p div 100 + p div 400)"

definition days_before_month :: "int \<Rightarrow> int \<Rightarrow> int" where
  "days_before_month y m = sum_list (map (dias_del_mes y) [1..m - 1])"

definition toordinal :: "datetime \<Rightarrow> int" where
  "toordinal d = days_before_year (year d) + days_before_month (year d) (month d) + day d"

definition weekday :: "datetime \<Rightarrow> int" where
  "weekday d = (toordinal d + 6) mod 7"

text \<open>\<open>d + timedelta(days=n)\<close> for \<open>n \<ge> 0\<close>: the date \<open>n\<close> days later, and
  \<open>OverflowError\<close> when it lies beyond year 9999.\<close>

definition dia_siguiente :: "datetime \<Rightarrow> datetime" where
  "dia_siguiente d =
     (if day d < dias_del_mes (year d) (month d) then d\<lparr>day := day d + 1\<rparr>
      else if month d < 12 then d\<lparr>month := month d + 1, day := 1\<rparr>
      else \<lparr>year = year d + 1, month = 1, day = 1\<rparr>)"

fun avanzar :: "nat \<Rightarrow> datetime \<Rightarrow> datetime" where
  "avanzar 0 d = d"
| "avanzar (Suc n) d = avanzar n (dia_siguiente d)"

definition sumar_dias :: "datetime \<Rightarrow> nat \<Rightarrow> error + datetime" where
  "sumar_dias d n = (let r = avanzar n d in if year r \<le> 9999 then Inr r else Inl OverflowError)"

lemma days_before_month_vals:
  "days_before_month y 1 = 0"
  "days_before_month y 2 = 31"
  "days_before_month y 3 = 31 + dias_del_mes y 2"
  "days_before_month y 4 = 62 + dias_del_mes y 2"
  "days_before_month y 5 = 92 + dias_del_mes y 2"
  "days_before_month y 6 = 123 + dias_del_mes y 2"
  "days_before_month y 7 = 153 + dias_del_mes y 2"
  "days_before_month y 8 = 184 + dias_del_mes y 2"
  "days_before_month y 9 = 215 + dias_del_mes y 2"
  "days_before_month y 10 = 245 + dias_del_mes y 2"
  "days_before_month y 11 = 276 + dias_del_mes y 2"
  "days_before_month y 12 = 306 + dias_del_mes y 2"
  by (simp_all add: days_before_month_def upto.simps dias_del_mes_def)

section \<open>The interpreter (procesar\_logica\_negocio)\<close>

text \<open>The dictionary \<open>dias_es\<close> of \<open>_obtener_proximo_dia_semana\<close>, in insertion order.\<close>

definition dias_indice :: "(string \<times> int) list" where
  "dias_indice =
     [(''lunes'', 0), (''martes'', 1), (''miercoles'', 2), (''mi'' @ [CHR 0xE9] @ ''rcoles'', 2),
      (''jueves'', 3), (''viernes'', 4), (''sabado'', 5), (''s'' @ [CHR 0xE1] @ ''bado'', 5),
      (''domingo'', 6)]"

text \<open>\<open>_obtener_proximo_dia_semana(nombre_dia, ahora, proxima_semana)\<close>. Python's \<open>%\<close> with a
  positive modulus is \<open>mod\<close> on \<open>int\<close>.\<close>

definition obtener_proximo_dia_semana :: "string \<Rightarrow> datetime \<Rightarrow> bool \<Rightarrow> error + datetime option" where
  "obtener_proximo_dia_semana nombre_dia ahora proxima_semana =
     (case map_of dias_indice nombre_dia of
        None \<Rightarrow> Inr None
      | Some dia_objetivo \<Rightarrow>
          let dia_actual = weekday ahora;
              dias_adelante = (dia_objetivo - dia_actual) mod 7;
              dias_adelante' =
                (if proxima_semana then (if dias_adelante = 0 then 7 else dias_adelante + 7)
                 else (if dias_adelante = 0 then 0 else dias_adelante))
          in (case sumar_dias ahora (nat dias_adelante') of
                Inl e \<Rightarrow> Inl e
              | Inr f \<Rightarrow> Inr (Some f)))"

text \<open>
  What the interpreter takes from outside the repository: the clock (\<open>datetime.now()\<close>,
  read once), the two calls of the library \<open>dateparser\<close> (the fallback of the date logic,
  which prefers future dates, and the one that reads an answer of the user), the library
  function \<open>datetime.strptime(resp, "%Y-%m-%d")\<close> (\<open>None\<close> when it raises), and the lines
  that \<open>input()\<close> will return, in order; when they run out \<open>input()\<close> raises
  \<open>EOFError\<close>. The parsers return \<open>datetime\<close> objects or \<open>None\<close>.
\<close>

record entorno =
  reloj :: datetime
  dateparser_futuro :: "string \<Rightarrow> datetime option"
  dateparser_base :: "string \<Rightarrow> datetime option"
  strptime_ymd :: "string \<Rightarrow> datetime option"
  entradas :: "string list"

text \<open>The answers \<open>_pedir_confirmacion_fecha\<close> understands.\<close>

definition respuestas_este :: "string list" where
  "respuestas_este = [''este'', ''este mes'']"

definition respuestas_proximo :: "string list" where
  "respuestas_proximo =
     [''pr'' @ [CHR 0xF3] @ ''ximo'', ''proximo'', ''siguiente'', ''pr'' @ [CHR 0xF3] @ ''ximo mes'']"

text \<open>The \<open>while True\<close> loop of \<open>_pedir_confirmacion_fecha\<close>, one iteration per line read.
  The \<open>print\<close> calls have no effect on the result and are left out.\<close>

fun bucle_confirmacion ::
  "entorno \<Rightarrow> datetime option \<Rightarrow> datetime \<Rightarrow> datetime \<Rightarrow> string list \<Rightarrow> error + datetime" where
  "bucle_confirmacion env fecha_este fecha_proximo ahora [] = Inl EOFError"
| "bucle_confirmacion env fecha_este fecha_proximo ahora (linea # resto) =
     (let resp = lower (strip linea)
      in if resp \<in> set respuestas_este then
           (case fecha_este of
              Some f \<Rightarrow> if \<not> fecha_menor f ahora then Inr f
                        else bucle_confirmacion env fecha_este fecha_proximo ahora resto
            | None \<Rightarrow> bucle_confirmacion env fecha_este fecha_proximo ahora resto)
         else if resp \<in> set respuestas_proximo then Inr fecha_proximo
         else
           (case strptime_ymd env resp of
              Some fecha_usuario \<Rightarrow> Inr fecha_usuario
            | None \<Rightarrow>
                (case dateparser_base env resp of
                   Some fecha_parse \<Rightarrow> Inr fecha_parse
                 | None \<Rightarrow> bucle_confirmacion env fecha_este fecha_proximo ahora resto)))"

text \<open>A line the loop does not understand: not one of the two answers, and neither
  \<open>strptime\<close> nor \<open>dateparser\<close> reads a date in it. The loop prints a message and reads
  the next line.\<close>

definition ilegible :: "entorno \<Rightarrow> string \<Rightarrow> bool" where
  "ilegible env linea =
     (let resp = lower (strip linea)
      in resp \<notin> set respuestas_este \<and> resp \<notin> set respuestas_proximo \<and>
         strptime_ymd env resp = None \<and> dateparser_base env resp = None)"

text \<open>\<open>_pedir_confirmacion_fecha(texto_original, fecha_actual, ahora)\<close>. The \<open>try\<close> around
  \<open>fecha_este\<close> turns an exception into \<open>None\<close>; \<open>fecha_proximo\<close> has no \<open>try\<close>.\<close>

definition pedir_confirmacion_fecha :: "entorno \<Rightarrow> string \<Rightarrow> datetime \<Rightarrow> datetime \<Rightarrow> error + datetime" where
  "pedir_confirmacion_fecha env texto_original fecha_actual ahora =
     (let dia = day fecha_actual;
          fecha_este = safe_date (year ahora) (month ahora) dia;
          next_month = (if month ahora + 1 = 13 then 1 else month ahora + 1);
          next_year = (if month ahora + 1 = 13 then year ahora + 1 else year ahora)
      in case safe_date next_year next_month dia of
           None \<Rightarrow> Inl ValueError
         | Some fecha_proximo \<Rightarrow> bucle_confirmacion env fecha_este fecha_proximo ahora (entradas env))"

text \<open>
  \<open>extraer_fechas_mejorado\<close> tries four patterns in order and returns the groups and the
  kind of the first that matches. Its only caller, \<open>procesar_logica_negocio\<close>, uses the
  result when the kind is \<open>'explicita'\<close> and ignores it otherwise; only the first pattern
  has that kind, so the model returns the groups of the first pattern, or \<open>None\<close>.

  The first pattern is \<open>(\d{1,2})\s*de\s+(\w+)\<close>. \<open>coincide_explicita\<close> matches it at
  the start of a string: one or two digits (two when there are two: with one, the next
  character would be a digit and the match would fail), any whitespace, \<open>de\<close>, at least
  one whitespace character, and the longest run of word characters, at least one.
  \<open>buscar_explicita\<close> is \<open>re.search\<close>: the match at the leftmost position that has one.
\<close>

definition coincide_explicita :: "string \<Rightarrow> (string \<times> string) option" where
  "coincide_explicita s =
     (let digitos = takeWhile es_digito (take 2 s)
      in if digitos = [] then None
         else
           (case dropWhile es_espacio (drop (length digitos) s) of
              c1 # c2 # r \<Rightarrow>
                if c1 = CHR ''d'' \<and> c2 = CHR ''e'' then
                  (let r' = dropWhile es_espacio r;
                       palabra = takeWhile es_palabra r'
                   in if r' = r \<or> palabra = [] then None
                      else Some (digitos, palabra))
                else None
            | _ \<Rightarrow> None))"

fun buscar_explicita :: "string \<Rightarrow> (string \<times> string) option" where
  "buscar_explicita [] = None"
| "buscar_explicita (c # cs) =
     (case coincide_explicita (c # cs) of
        Some g \<Rightarrow> Some g
      | None \<Rightarrow> buscar_explicita cs)"

definition extraer_fechas_mejorado :: "string \<Rightarrow> (string \<times> string) option" where
  "extraer_fechas_mejorado texto = (let texto_min = lower texto in buscar_explicita texto_min)"

text \<open>\<open>int(s)\<close> for a string of decimal digits.\<close>

definition entero :: "string \<Rightarrow> int" where
  "entero s = fold (\<lambda>c n. 10 * n + (int (codigo c) - 48)) s 0"

text \<open>The tables of the date logic of \<open>procesar_logica_negocio\<close>.\<close>

definition meses_es :: "(string \<times> int) list" where
  "meses_es =
     [(''enero'', 1), (''febrero'', 2), (''marzo'', 3), (''abril'', 4), (''mayo'', 5),
      (''junio'', 6), (''julio'', 7), (''agosto'', 8), (''septiembre'', 9), (''octubre'', 10),
      (''noviembre'', 11), (''diciembre'', 12)]"

definition dias_es :: "string list" where
  "dias_es =
     [''lunes'', ''martes'', ''miercoles'', ''mi'' @ [CHR 0xE9] @ ''rcoles'', ''jueves'', ''viernes'',
      ''sabado'', ''s'' @ [CHR 0xE1] @ ''bado'', ''domingo'']"

text \<open>Pattern 1 of \<open>procesar_logica_negocio\<close> (the explicit day and month): the value of
  \<open>fecha_dt\<close> after it. The bare \<open>except\<close> turns a failure of \<open>_safe_date\<close> into \<open>None\<close>.\<close>

definition fecha_explicita :: "datetime \<Rightarrow> string \<Rightarrow> datetime option" where
  "fecha_explicita ahora texto =
     (case extraer_fechas_mejorado texto of
        None \<Rightarrow> None
      | Some (g0, g1) \<Rightarrow>
          let dia_num = entero g0; mes_nombre = g1
          in (case map_of meses_es mes_nombre of
                None \<Rightarrow> None
              | Some mes_num \<Rightarrow>
                  let anio = year ahora;
                      anio' = (if mes_num < month ahora \<or> (mes_num = month ahora \<and> dia_num < day ahora)
                               then anio + 1 else anio)
                  in safe_date anio' mes_num dia_num))"

text \<open>Patterns 2 and 3 (a weekday after \<open>proximo\<close> or after \<open>este\<close>): they differ in the
  keywords and in the flag \<open>proxima_semana\<close>. The loop over \<open>dias_es\<close> stops at the first
  weekday name that occurs in the text.\<close>

definition fecha_dia_semana ::
  "datetime option \<Rightarrow> string list \<Rightarrow> bool \<Rightarrow> string \<Rightarrow> datetime \<Rightarrow> error + datetime option" where
  "fecha_dia_semana fecha_dt palabras proxima_semana texto_min ahora =
     (if fecha_dt = None \<and> list_ex (\<lambda>kw. contiene texto_min kw) palabras then
        (case find (\<lambda>dia. contiene texto_min dia) dias_es of
           None \<Rightarrow> Inr fecha_dt
         | Some dia \<Rightarrow> obtener_proximo_dia_semana dia ahora proxima_semana)
      else Inr fecha_dt)"

definition palabras_proximo :: "string list" where
  "palabras_proximo = [''pr'' @ [CHR 0xF3] @ ''ximo'', ''proximo'', ''siguiente'']"

definition palabras_este :: "string list" where
  "palabras_este = [''este'', ''este semana'']"

text \<open>The date logic of \<open>procesar_logica_negocio\<close> up to the last-resort default: patterns
  1 to 3, the fallback parser, and \<open>ahora + timedelta(days=1)\<close>.\<close>

definition resolver_fecha :: "entorno \<Rightarrow> string \<Rightarrow> error + datetime" where
  "resolver_fecha env texto =
     (let texto_min = lower texto;
          ahora = reloj env;
          f1 = fecha_explicita ahora texto
      in case fecha_dia_semana f1 palabras_proximo True texto_min ahora of
           Inl e \<Rightarrow> Inl e
         | Inr f2 \<Rightarrow>
             (case fecha_dia_semana f2 palabras_este False texto_min ahora of
                Inl e \<Rightarrow> Inl e
              | Inr f3 \<Rightarrow>
                  let f4 = (case f3 of None \<Rightarrow> dateparser_futuro env texto_min | Some f \<Rightarrow> Some f)
                  in (case f4 of None \<Rightarrow> sumar_dias ahora 1 | Some f \<Rightarrow> Inr f)))"

text \<open>\<open>DICCIONARIO_MATERIAS_MEJORADO\<close> in insertion order: key, \<open>nombre\<close>, \<open>variantes\<close>.\<close>

definition DICCIONARIO_MATERIAS_MEJORADO :: "(string \<times> string \<times> string list) list" where
  "DICCIONARIO_MATERIAS_MEJORADO =
     [(''web'', ''Aplicaciones Web y M'' @ [CHR 0xF3] @ ''viles'',
         [''web'', ''m'' @ [CHR 0xF3] @ ''vil'', ''mobile'', ''app'', ''webapp'',
          ''aplicaci'' @ [CHR 0xF3] @ ''n'', ''frontend'', ''backend'', ''react'', ''angular'']),
      (''bi'', ''Inteligencia de negocios'',
         [''bi'', ''negocios'', ''inteligencia'', ''analytics'', ''datos'', ''data'', ''tableau'',
          ''powerbi'', ''business'']),
      (''realidad'', ''Realidad Nacional'',
         [''realidad'', ''nacional'', ''sociedad'', ''contexto'']),
      (''distribuidas'', ''Aplicaciones distribuidas'',
         [''distribuidas'', ''distribuido'', ''microservicios'', ''cloud'', ''kubernetes'', ''docker'']),
      (''gesti'' @ [CHR 0xF3] @ ''n'', ''Gesti'' @ [CHR 0xF3] @ ''n de prueba e implantaci'' @ [CHR 0xF3] @ ''n'',
         [''gesti'' @ [CHR 0xF3] @ ''n'', ''gestion'', ''prueba'', ''qa'', ''testing'',
          ''implantaci'' @ [CHR 0xF3] @ ''n'', ''deployment'']),
      (''ingl'' @ [CHR 0xE9] @ ''s'', ''Ingl'' @ [CHR 0xE9] @ ''s B1+'',
         [''ingl'' @ [CHR 0xE9] @ ''s'', ''ingles'', ''english'', ''b1''])]"

text \<open>Step 1 of \<open>procesar_logica_negocio\<close>: the first subject with a variant among the
  clean tokens, the empty string when there is none.\<close>

fun materia_exacta :: "(string \<times> string \<times> string list) list \<Rightarrow> string list \<Rightarrow> string" where
  "materia_exacta [] tokens_clean = []"
| "materia_exacta ((categoria, nombre_materia, variantes) # resto) tokens_clean =
     (if list_ex (\<lambda>var. var \<in> set tokens_clean) variantes then nombre_materia
      else materia_exacta resto tokens_clean)"

definition todas_variantes :: "string list" where
  "todas_variantes = concat (map (\<lambda>(categoria, nombre_materia, variantes). variantes) DICCIONARIO_MATERIAS_MEJORADO)"

text \<open>The inner loop of the fuzzy phase: the first subject that lists the variant found.\<close>

fun materia_de_variante :: "(string \<times> string \<times> string list) list \<Rightarrow> string \<Rightarrow> string" where
  "materia_de_variante [] encontrado = []"
| "materia_de_variante ((cat, nombre_materia, variantes) # resto) encontrado =
     (if encontrado \<in> set variantes then nombre_materia else materia_de_variante resto encontrado)"

text \<open>The fuzzy phase over the clean tokens. \<open>if encontrado\<close> and \<open>if materia_final\<close> test
  for a non-empty string.\<close>

fun materia_fuzzy :: "string list \<Rightarrow> string" where
  "materia_fuzzy [] = []"
| "materia_fuzzy (token # resto) =
     (let materia_final =
            (case buscar_concepto_fuzzy token todas_variantes (3 / 4) of
               None \<Rightarrow> []
             | Some encontrado \<Rightarrow>
                 if encontrado \<noteq> [] then materia_de_variante DICCIONARIO_MATERIAS_MEJORADO encontrado
                 else [])
      in if materia_final \<noteq> [] then materia_final else materia_fuzzy resto)"

definition detectar_materia :: "string list \<Rightarrow> string" where
  "detectar_materia tokens_clean =
     (let materia_final = materia_exacta DICCIONARIO_MATERIAS_MEJORADO tokens_clean
      in if materia_final = [] then materia_fuzzy tokens_clean else materia_final)"

text \<open>Step 2: the type of the task.\<close>

definition tipos_disponibles :: "string list" where
  "tipos_disponibles = [''examen'', ''proyecto'', ''deber'', ''entrega'', ''taller'']"

definition tipos_palabras_clave :: "(string \<times> string list) list" where
  "tipos_palabras_clave =
     [(''examen'', [''examen'', ''prueba'', ''test'', ''parcial'', ''final'',
                    ''evaluaci'' @ [CHR 0xF3] @ ''n'', ''quiz'', ''exam'']),
      (''proyecto'', [''proyecto'', ''trabajo'', ''investigaci'' @ [CHR 0xF3] @ ''n'', ''paper'',
                      ''trabajo final'']),
      (''entrega'', [''entrega'', ''foro'', ''submission'', ''entregar'']),
      (''taller'', [''taller'', ''workshop'', ''pr'' @ [CHR 0xE1] @ ''ctica''])]"

fun tipo_por_clave :: "(string \<times> string list) list \<Rightarrow> string list \<Rightarrow> unicode" where
  "tipo_por_clave [] tokens_clean = codigos ''Deber''"
| "tipo_por_clave ((tipo_nombre, palabras) # resto) tokens_clean =
     (if list_ex (\<lambda>p. p \<in> set tokens_clean) palabras then capitalize tipo_nombre
      else tipo_por_clave resto tokens_clean)"

fun tipo_fuzzy :: "string list \<Rightarrow> unicode" where
  "tipo_fuzzy [] = codigos ''Deber''"
| "tipo_fuzzy (token # resto) =
     (case buscar_concepto_fuzzy token tipos_disponibles (3 / 4) of
        None \<Rightarrow> tipo_fuzzy resto
      | Some encontrado \<Rightarrow> if encontrado \<noteq> [] then capitalize encontrado else tipo_fuzzy resto)"

definition detectar_tipo :: "string list \<Rightarrow> unicode" where
  "detectar_tipo tokens_clean =
     (let t = tipo_por_clave tipos_palabras_clave tokens_clean
      in if t = codigos ''Deber'' then tipo_fuzzy tokens_clean else t)"

text \<open>Step 3: the priority. The negation test reads the raw tokens.\<close>

definition palabras_urgentes :: "string list" where
  "palabras_urgentes =
     [''urgente'', ''importante'', ''prioridad'', ''cr'' @ [CHR 0xED] @ ''tico'', ''critico'', ''urge'',
      ''asap'']"

definition palabras_bajas :: "string list" where
  "palabras_bajas =
     [''suave'', ''bajo'', ''f'' @ [CHR 0xE1] @ ''cil'', ''facil'', ''simple'',
      ''f'' @ [CHR 0xE1] @ ''cilmente'', ''facilmente'']"

definition detectar_prioridad :: "string list \<Rightarrow> string list \<Rightarrow> string" where
  "detectar_prioridad tokens tokens_clean =
     (let p0 = ''Media'';
          p1 = (if list_ex (\<lambda>p. p \<in> set tokens_clean) palabras_urgentes then
                  (if \<not> tiene_negacion tokens ''urgente'' 3 \<and> \<not> tiene_negacion tokens ''importante'' 3
                   then ''Alta'' else p0)
                else p0)
      in if p1 = ''Media'' \<and> list_ex (\<lambda>p. p \<in> set tokens_clean) palabras_bajas then ''Baja'' else p1)"

text \<open>\<open>strftime("%Y-%m-%d")\<close>: the year on four digits, month and day on two, zero padded,
  for a year from 1 to 9999.\<close>

definition digito :: "int \<Rightarrow> char" where
  "digito k = char_of (48 + nat k)"

definition dos_digitos :: "int \<Rightarrow> string" where
  "dos_digitos n = [digito (n div 10 mod 10), digito (n mod 10)]"

definition strftime_ymd :: "datetime \<Rightarrow> string" where
  "strftime_ymd d =
     dos_digitos (year d div 100) @ dos_digitos (year d) @ ''-'' @ dos_digitos (month d) @ ''-'' @
     dos_digitos (day d)"

text \<open>The dictionary that \<open>procesar_logica_negocio\<close> returns.\<close>

record tarea =
  nombre :: unicode
  fecha :: string
  tipo :: unicode
  prioridad :: string
  materia :: string

definition procesar_logica_negocio :: "entorno \<Rightarrow> string \<Rightarrow> error + tarea" where
  "procesar_logica_negocio env texto =
     (let ahora = reloj env;
          tokens = tokenizar texto;
          tokens_clean = remover_stopwords tokens;
          materia_final = detectar_materia tokens_clean;
          tipo_tarea = detectar_tipo tokens_clean;
          prioridad_tarea = detectar_prioridad tokens tokens_clean
      in case resolver_fecha env texto of
           Inl e \<Rightarrow> Inl e
         | Inr fecha_dt \<Rightarrow>
             (case (if fecha_menor fecha_dt ahora
                    then pedir_confirmacion_fecha env texto fecha_dt ahora
                    else Inr fecha_dt) of
                Inl e \<Rightarrow> Inl e
              | Inr fecha_final \<Rightarrow>
                  Inr \<lparr>nombre = capitalize texto, fecha = strftime_ymd fecha_final,
                       tipo = tipo_tarea, prioridad = prioridad_tarea, materia = materia_final\<rparr>))"

text \<open>The shape \<open>YYYY-MM-DD\<close>: ten characters, hyphens at positions 4 and 7, decimal
  digits elsewhere.\<close>

definition es_formato_ymd :: "string \<Rightarrow> bool" where
  "es_formato_ymd s =
     (length s = 10 \<and> s ! 4 = CHR ''-'' \<and> s ! 7 = CHR ''-'' \<and>
      list_all (\<lambda>i. es_digito (s ! i)) [0, 1, 2, 3, 5, 6, 8, 9])"

text \<open>A date that is a valid calendar date and not before the reference date.\<close>

definition no_pasada :: "datetime \<Rightarrow> datetime \<Rightarrow> bool" where
  "no_pasada ahora f = (fecha_valida f \<and> \<not> fecha_menor f ahora)"

text \<open>An environment for the examples: 1 March 2025 (a Saturday), parsers that recognise
  nothing, no input.\<close>

definition entorno_ejemplo :: entorno where
  "entorno_ejemplo =
     \<lparr>reloj = \<lparr>year = 2025, month = 3, day = 1\<rparr>,
      dateparser_futuro = (\<lambda>s. None), dateparser_base = (\<lambda>s. None),
      strptime_ymd = (\<lambda>s. None), entradas = []\<rparr>"

text \<open>An environment in which the fallback parser reads \<open>ayer\<close> as the day before the
  reference date and the user answers \<open>que?\<close>, which no parser reads, and then \<open>Este\<close>.\<close>

definition entorno_escalada :: entorno where
  "entorno_escalada =
     \<lparr>reloj = \<lparr>year = 2025, month = 3, day = 1\<rparr>,
      dateparser_futuro =
        (\<lambda>s. if s = ''ayer'' then Some \<lparr>year = 2025, month = 2, day = 28\<rparr> else None),
      dateparser_base = (\<lambda>s. None),
      strptime_ymd = (\<lambda>s. None),
      entradas = [''que?'', '' Este '']\<rparr>"

text \<open>The environment of the examples on 3 March 2025, a Monday.\<close>

definition entorno_lunes :: entorno where
  "entorno_lunes =
     \<lparr>reloj = \<lparr>year = 2025, month = 3, day = 3\<rparr>,
      dateparser_futuro = (\<lambda>s. None), dateparser_base = (\<lambda>s. None),
      strptime_ymd = (\<lambda>s. None), entradas = []\<rparr>"


section \<open>Calendar arithmetic\<close>

lemma div_anterior:
  fixes n k :: int
  assumes "0 < k"
  shows "(n - 1) div k = n div k - (if n mod k = 0 then 1 else 0)"
proof (cases "n mod k = 0")
  case True
  have "n - 1 = k * (n div k - 1) + (k - 1)"
    using True by (simp add: algebra_simps) (metis True add.right_neutral mult_div_mod_eq mult.commute)
  then have "(n - 1) div k = n div k - 1"
    using assms by (intro int_div_pos_eq [where r = "k - 1"]) simp_all
  then show ?thesis using True by simp
next
  case False
  have "0 \<le> n mod k" "n mod k < k" using assms by simp_all
  then have r: "0 \<le> n mod k - 1" "n mod k - 1 < k" using False by simp_all
  have "n - 1 = k * (n div k) + (n mod k - 1)" by simp
  then have "(n - 1) div k = n div k"
    using r by (intro int_div_pos_eq [where r = "n mod k - 1"]) simp_all
  then show ?thesis using False by simp
qed

lemma days_before_year_Suc:
  "days_before_year (y + 1) = days_before_year y + 337 + dias_del_mes y 2"
proof -
  have d4: "(y - 1) div 4 = y div 4 - (if y mod 4 = 0 then 1 else 0)" by (rule div_anterior) simp
  have d100: "(y - 1) div 100 = y div 100 - (if y mod 100 = 0 then 1 else 0)" by (rule div_anterior) simp
  have d400: "(y - 1) div 400 = y div 400 - (if y mod 400 = 0 then 1 else 0)" by (rule div_anterior) simp
  have m4: "y mod 4 = 0" if "y mod 100 = 0"
  proof -
    have "(100::int) dvd y" using that by (simp add: dvd_eq_mod_eq_0)
    then have "(4::int) dvd y" by (rule dvd_trans [rotated]) simp
    then show ?thesis by (simp add: dvd_eq_mod_eq_0)
  qed
  have m100: "y mod 100 = 0" if "y mod 400 = 0"
  proof -
    have "(400::int) dvd y" using that by (simp add: dvd_eq_mod_eq_0)
    then have "(100::int) dvd y" by (rule dvd_trans [rotated]) simp
    then show ?thesis by (simp add: dvd_eq_mod_eq_0)
  qed
  show ?thesis
    using m4 m100
    by (auto simp add: days_before_year_def dias_del_mes_def isleap_def Let_def d4 d100 d400)
qed


lemma meses_casos:
  "1 \<le> (m::int) \<Longrightarrow> m \<le> 12 \<Longrightarrow>
     m = 1 \<or> m = 2 \<or> m = 3 \<or> m = 4 \<or> m = 5 \<or> m = 6 \<or> m = 7 \<or> m = 8 \<or> m = 9 \<or> m = 10 \<or> m = 11 \<or> m = 12"
  by arith

lemma toordinal_dia_siguiente:
  assumes "fecha_valida d"
  shows "toordinal (dia_siguiente d) = toordinal d + 1"
proof -
  have m: "1 \<le> month d" "month d \<le> 12" and dd: "day d \<le> dias_del_mes (year d) (month d)"
    using assms by (simp_all add: fecha_valida_def)
  have caso: "toordinal (dia_siguiente d) = toordinal d + 1" if "month d = k" "k \<in> {1,2,3,4,5,6,7,8,9,10,11}" for k
    using that dd
    by (auto simp add: dia_siguiente_def toordinal_def days_before_month_vals dias_del_mes_def)
  have ultimo: "toordinal (dia_siguiente d) = toordinal d + 1" if "month d = 12"
    using that dd
    by (simp add: dia_siguiente_def toordinal_def days_before_month_vals days_before_year_Suc
                  dias_del_mes_def)
  show ?thesis using meses_casos [OF m] caso ultimo by blast
qed

lemma dia_siguiente_valida:
  assumes "fecha_valida d" "year d < 9999"
  shows "fecha_valida (dia_siguiente d)"
  using assms by (auto simp: fecha_valida_def dia_siguiente_def dias_del_mes_def)

lemma dia_siguiente_mayor: "fecha_valida d \<Longrightarrow> fecha_menor d (dia_siguiente d)"
  by (auto simp: fecha_valida_def dia_siguiente_def fecha_menor_def)

section \<open>Properties of the date logic\<close>

lemma fecha_menor_irrefl: "\<not> fecha_menor d d"
  by (simp add: fecha_menor_def)

lemma fecha_menor_trans: "fecha_menor a b \<Longrightarrow> fecha_menor b c \<Longrightarrow> fecha_menor a c"
  unfolding fecha_menor_def by linarith

lemma fecha_menor_asim: "fecha_menor a b \<Longrightarrow> \<not> fecha_menor b a"
  unfolding fecha_menor_def by linarith

lemma avanzar_invariante:
  assumes "fecha_valida d" "Y \<le> 9999"
    and "year d < Y \<or> (year d = Y \<and> month d = 1 \<and> day d + int n \<le> 31)"
    and "n \<le> 30"
  shows "fecha_valida (avanzar n d) \<and> year (avanzar n d) \<le> Y \<and>
         toordinal (avanzar n d) = toordinal d + int n \<and>
         (0 < n \<longrightarrow> fecha_menor d (avanzar n d))"
  using assms
proof (induction n arbitrary: d)
  case 0
  then show ?case by auto
next
  case (Suc n)
  let ?e = "dia_siguiente d"
  have v: "fecha_valida ?e"
  proof (cases "year d < Y")
    case True
    then have "year d < 9999" using Suc.prems(2) by simp
    then show ?thesis using Suc.prems(1) by (rule dia_siguiente_valida [rotated])
  next
    case False
    then have "month d = 1" "day d < 31" using Suc.prems(3) by auto
    then show ?thesis
      using Suc.prems(1) by (simp add: dia_siguiente_def dias_del_mes_def fecha_valida_def)
  qed
  have pos: "year ?e < Y \<or> (year ?e = Y \<and> month ?e = 1 \<and> day ?e + int n \<le> 31)"
    using Suc.prems by (auto simp: dia_siguiente_def dias_del_mes_def fecha_valida_def)
  have n: "n \<le> 30" using Suc.prems by simp
  from Suc.IH [OF v \<open>Y \<le> 9999\<close> pos n]
  have ih: "fecha_valida (avanzar n ?e)" "year (avanzar n ?e) \<le> Y"
       "toordinal (avanzar n ?e) = toordinal ?e + int n"
       "0 < n \<longrightarrow> fecha_menor ?e (avanzar n ?e)" by simp_all
  have "fecha_menor d (avanzar n ?e)"
  proof (cases "n = 0")
    case True
    then show ?thesis using dia_siguiente_mayor [OF Suc.prems(1)] by simp
  next
    case False
    then show ?thesis
      using ih(4) dia_siguiente_mayor [OF Suc.prems(1)] fecha_menor_trans by blast
  qed
  then show ?case
    using ih toordinal_dia_siguiente [OF Suc.prems(1)] by simp
qed

lemma sumar_dias_ok:
  assumes "fecha_valida d" "year d < 9999" "n \<le> 30"
  shows "sumar_dias d n = Inr (avanzar n d) \<and> fecha_valida (avanzar n d) \<and>
         \<not> fecha_menor (avanzar n d) d \<and> (0 < n \<longrightarrow> fecha_menor d (avanzar n d)) \<and>
         weekday (avanzar n d) = (weekday d + int n) mod 7"
proof -
  have pos: "year d < year d + 1 \<or> (year d = year d + 1 \<and> month d = 1 \<and> day d + int n \<le> 31)"
    by simp
  have "year d + 1 \<le> 9999" using assms(2) by simp
  from avanzar_invariante [OF assms(1) this pos assms(3)]
  have inv: "fecha_valida (avanzar n d)" "year (avanzar n d) \<le> year d + 1"
       "toordinal (avanzar n d) = toordinal d + int n"
       "0 < n \<longrightarrow> fecha_menor d (avanzar n d)" by simp_all
  have "\<not> fecha_menor (avanzar n d) d"
  proof (cases "n = 0")
    case True
    then show ?thesis by (simp add: fecha_menor_irrefl)
  next
    case False
    then show ?thesis using inv(4) fecha_menor_asim by blast
  qed
  moreover have "weekday (avanzar n d) = (weekday d + int n) mod 7"
    unfolding weekday_def inv(3) by (simp add: algebra_simps mod_simps)
  moreover have "sumar_dias d n = Inr (avanzar n d)"
    using inv(2) assms(2) by (simp add: sumar_dias_def Let_def)
  ultimately show ?thesis using inv by simp
qed

lemma safe_date_Some:
  "safe_date y m d = Some f \<Longrightarrow>
     fecha_valida f \<and> year f = y \<and> month f = m \<and> day f = min d (dias_del_mes y m) \<and> 1 \<le> d"
  by (auto simp: safe_date_def clamp_day_def Let_def fecha_valida_def split: if_splits)

lemma safe_date_ok:
  "1 \<le> y \<Longrightarrow> y \<le> 9999 \<Longrightarrow> 1 \<le> m \<Longrightarrow> m \<le> 12 \<Longrightarrow> 1 \<le> d \<Longrightarrow>
     safe_date y m d = Some \<lparr>year = y, month = m, day = min d (dias_del_mes y m)\<rparr>"
  by (auto simp: safe_date_def clamp_day_def Let_def dias_del_mes_def)

lemma dias_del_mes_pos: "28 \<le> dias_del_mes y m"
  by (simp add: dias_del_mes_def)

lemma fecha_explicita_eq:
  assumes "extraer_fechas_mejorado texto = Some (g0, g1)" "map_of meses_es g1 = Some m"
  shows "fecha_explicita ahora texto =
           safe_date (if m < month ahora \<or> (m = month ahora \<and> entero g0 < day ahora)
                      then year ahora + 1 else year ahora) m (entero g0)"
  using assms by (simp add: fecha_explicita_def Let_def)

lemma fecha_explicita_no_pasada:
  assumes "fecha_valida ahora" "fecha_explicita ahora texto = Some f"
  shows "no_pasada ahora f"
proof -
  obtain g0 g1 m where g: "extraer_fechas_mejorado texto = Some (g0, g1)" "map_of meses_es g1 = Some m"
    using assms(2) by (auto simp: fecha_explicita_def Let_def split: option.splits prod.splits)
  define y where "y = (if m < month ahora \<or> (m = month ahora \<and> entero g0 < day ahora)
                      then year ahora + 1 else year ahora)"
  have "safe_date y m (entero g0) = Some f"
    using fecha_explicita_eq [OF g, of ahora] assms(2) by (simp add: y_def)
  from safe_date_Some [OF this]
  have f: "fecha_valida f" "year f = y" "month f = m" "day f = min (entero g0) (dias_del_mes y m)"
    by simp_all
  have "\<not> fecha_menor f ahora"
  proof (cases "m < month ahora \<or> (m = month ahora \<and> entero g0 < day ahora)")
    case True
    then show ?thesis using f by (simp add: fecha_menor_def y_def)
  next
    case False
    then have y: "y = year ahora" by (simp add: y_def)
    have "day ahora \<le> dias_del_mes (year ahora) (month ahora)"
      using assms(1) by (simp add: fecha_valida_def)
    then show ?thesis using False f y by (auto simp: fecha_menor_def)
  qed
  then show ?thesis using f(1) by (simp add: no_pasada_def)
qed

lemma dias_es_en_indice:
  "dia \<in> set dias_es \<Longrightarrow> \<exists>obj. map_of dias_indice dia = Some obj \<and> 0 \<le> obj \<and> obj \<le> 6"
  by (auto simp: dias_es_def dias_indice_def)

lemma obtener_proximo_dia_semana_eq:
  assumes "fecha_valida ahora" "year ahora < 9999"
    and "map_of dias_indice dia = Some obj"
    and off: "off = (obj - weekday ahora) mod 7"
    and k: "k = (if prox then (if off = 0 then 7 else off + 7) else off)"
  shows "0 \<le> k \<and> k \<le> 13 \<and>
         obtener_proximo_dia_semana dia ahora prox = Inr (Some (avanzar (nat k) ahora)) \<and>
         no_pasada ahora (avanzar (nat k) ahora) \<and>
         weekday (avanzar (nat k) ahora) = (weekday ahora + k) mod 7"
proof -
  have "0 \<le> off" "off < 7" by (simp_all add: off)
  then have kk: "0 \<le> k" "k \<le> 13" by (auto simp: k)
  then have "nat k \<le> 30" by simp
  from sumar_dias_ok [OF assms(1,2) this]
  have s: "sumar_dias ahora (nat k) = Inr (avanzar (nat k) ahora)"
       "fecha_valida (avanzar (nat k) ahora)" "\<not> fecha_menor (avanzar (nat k) ahora) ahora"
       "weekday (avanzar (nat k) ahora) = (weekday ahora + int (nat k)) mod 7" by simp_all
  have "obtener_proximo_dia_semana dia ahora prox = Inr (Some (avanzar (nat k) ahora))"
    using assms(3) s(1) by (auto simp: obtener_proximo_dia_semana_def Let_def k off)
  moreover have "weekday (avanzar (nat k) ahora) = (weekday ahora + k) mod 7"
    using s(4) kk(1) by simp
  ultimately show ?thesis
    using kk s(2,3) by (simp add: no_pasada_def)
qed

lemma fecha_dia_semana_no_pasada:
  assumes "fecha_valida ahora" "year ahora < 9999"
    and "\<forall>f. fecha_dt = Some f \<longrightarrow> no_pasada ahora f"
  shows "\<exists>r. fecha_dia_semana fecha_dt palabras prox texto_min ahora = Inr r \<and>
             (\<forall>f. r = Some f \<longrightarrow> no_pasada ahora f)"
proof (cases "fecha_dt = None \<and> list_ex (\<lambda>kw. contiene texto_min kw) palabras")
  case False
  then show ?thesis using assms(3) by (auto simp: fecha_dia_semana_def)
next
  case True
  show ?thesis
  proof (cases "find (\<lambda>dia. contiene texto_min dia) dias_es")
    case None
    then show ?thesis using True by (simp add: fecha_dia_semana_def)
  next
    case (Some dia)
    then have "dia \<in> set dias_es" by (auto simp: find_Some_iff)
    then obtain obj where "map_of dias_indice dia = Some obj"
      using dias_es_en_indice by blast
    from obtener_proximo_dia_semana_eq [OF assms(1,2) this refl refl, of prox]
    obtain k where "obtener_proximo_dia_semana dia ahora prox = Inr (Some (avanzar (nat k) ahora))"
        "no_pasada ahora (avanzar (nat k) ahora)" by blast
    then show ?thesis using True Some by (simp add: fecha_dia_semana_def)
  qed
qed

lemma resolver_fecha_origen:
  assumes "fecha_valida (reloj env)" "year (reloj env) < 9999"
  shows "\<exists>f. resolver_fecha env texto = Inr f \<and>
             (no_pasada (reloj env) f \<or> dateparser_futuro env (lower texto) = Some f)"
proof -
  let ?ahora = "reloj env"
  let ?tm = "lower texto"
  have p1: "\<forall>f. fecha_explicita ?ahora texto = Some f \<longrightarrow> no_pasada ?ahora f"
    using fecha_explicita_no_pasada [OF assms(1)] by blast
  from fecha_dia_semana_no_pasada [OF assms p1]
  obtain f2 where f2: "fecha_dia_semana (fecha_explicita ?ahora texto) palabras_proximo True ?tm ?ahora = Inr f2"
      "\<forall>f. f2 = Some f \<longrightarrow> no_pasada ?ahora f" by blast
  from fecha_dia_semana_no_pasada [OF assms f2(2)]
  obtain f3 where f3: "fecha_dia_semana f2 palabras_este False ?tm ?ahora = Inr f3"
      "\<forall>f. f3 = Some f \<longrightarrow> no_pasada ?ahora f" by blast
  have r: "resolver_fecha env texto =
          (case (case f3 of None \<Rightarrow> dateparser_futuro env ?tm | Some f \<Rightarrow> Some f) of
             None \<Rightarrow> sumar_dias ?ahora 1 | Some f \<Rightarrow> Inr f)"
    using f2(1) f3(1) by (simp add: resolver_fecha_def Let_def del: One_nat_def)
  show ?thesis
  proof (cases f3)
    case (Some f)
    then show ?thesis using r f3(2) by simp
  next
    case None
    show ?thesis
    proof (cases "dateparser_futuro env ?tm")
      case (Some f)
      then show ?thesis using r None by simp
    next
      case n: None
      have "(1::nat) \<le> 30" by simp
      from sumar_dias_ok [OF assms this]
      have "sumar_dias ?ahora 1 = Inr (avanzar 1 ?ahora)" "no_pasada ?ahora (avanzar 1 ?ahora)"
        by (simp_all add: no_pasada_def)
      then show ?thesis using r None n by simp
    qed
  qed
qed

lemma es_digito_digito: "es_digito (digito (n mod 10))"
proof -
  have "0 \<le> n mod 10" "n mod 10 \<le> 9" by simp_all
  then have "nat (n mod 10) \<le> 9" by simp
  then show ?thesis
    by (simp add: es_digito_def digito_def codigo_def Let_def)
qed

lemma strftime_ymd_formato: "es_formato_ymd (strftime_ymd d)"
  by (simp add: es_formato_ymd_def strftime_ymd_def dos_digitos_def es_digito_digito)

lemma bucle_solo_este:
  assumes "\<forall>l \<in> set ls. lower (strip l) \<in> set respuestas_este"
  shows "bucle_confirmacion env fecha_este fecha_proximo ahora ls =
           (case fecha_este of
              None \<Rightarrow> Inl EOFError
            | Some f \<Rightarrow> if ls \<noteq> [] \<and> \<not> fecha_menor f ahora then Inr f else Inl EOFError)"
  using assms by (induction ls) (auto simp: Let_def split: option.splits)

lemma respuestas_disjuntas: "r \<in> set respuestas_proximo \<Longrightarrow> r \<notin> set respuestas_este"
  by (auto simp: respuestas_proximo_def respuestas_este_def)

lemma pedir_confirmacion_proximo:
  assumes "fecha_valida ahora" "year ahora < 9999" "1 \<le> day fecha_actual"
    and "entradas env = l # ls" "lower (strip l) \<in> set respuestas_proximo"
    and "ny = (if month ahora = 12 then year ahora + 1 else year ahora)"
    and "nm = (if month ahora = 12 then 1 else month ahora + 1)"
  shows "pedir_confirmacion_fecha env texto fecha_actual ahora =
           Inr \<lparr>year = ny, month = nm, day = min (day fecha_actual) (dias_del_mes ny nm)\<rparr>"
proof -
  have r: "1 \<le> ny" "ny \<le> 9999" "1 \<le> nm" "nm \<le> 12"
    using assms(1,2,6,7) by (auto simp: fecha_valida_def)
  have "safe_date ny nm (day fecha_actual) =
          Some \<lparr>year = ny, month = nm, day = min (day fecha_actual) (dias_del_mes ny nm)\<rparr>"
    using safe_date_ok [OF r assms(3)] .
  moreover have "ny = (if month ahora + 1 = 13 then year ahora + 1 else year ahora)"
                "nm = (if month ahora + 1 = 13 then 1 else month ahora + 1)"
    using assms(6,7) by auto
  ultimately show ?thesis
    using assms(4,5) respuestas_disjuntas [OF assms(5)]
    by (simp add: pedir_confirmacion_fecha_def Let_def)
qed

lemma pedir_confirmacion_este:
  assumes "fecha_valida ahora" "year ahora < 9999" "1 \<le> day fecha_actual"
    and "entradas env \<noteq> []" "\<forall>l \<in> set (entradas env). lower (strip l) \<in> set respuestas_este"
    and "c = \<lparr>year = year ahora, month = month ahora,
               day = min (day fecha_actual) (dias_del_mes (year ahora) (month ahora))\<rparr>"
  shows "pedir_confirmacion_fecha env texto fecha_actual ahora =
           (if \<not> fecha_menor c ahora then Inr c else Inl EOFError)"
proof -
  have a: "1 \<le> year ahora" "year ahora \<le> 9999" "1 \<le> month ahora" "month ahora \<le> 12"
    using assms(1) by (simp_all add: fecha_valida_def)
  have este: "safe_date (year ahora) (month ahora) (day fecha_actual) = Some c"
    using safe_date_ok [OF a assms(3)] assms(6) by simp
  define ny where "ny = (if month ahora + 1 = 13 then year ahora + 1 else year ahora)"
  define nm where "nm = (if month ahora + 1 = 13 then 1 else month ahora + 1)"
  have r: "1 \<le> ny" "ny \<le> 9999" "1 \<le> nm" "nm \<le> 12"
    using a assms(2) by (auto simp: ny_def nm_def)
  have prox: "safe_date ny nm (day fecha_actual) =
                Some \<lparr>year = ny, month = nm, day = min (day fecha_actual) (dias_del_mes ny nm)\<rparr>"
    using safe_date_ok [OF r assms(3)] .
  show ?thesis
    using este prox assms(4) bucle_solo_este [OF assms(5)]
    by (simp add: pedir_confirmacion_fecha_def Let_def ny_def nm_def)
qed

lemma bucle_entradas:
  "bucle_confirmacion (env\<lparr>entradas := x\<rparr>) fe fp ahora ls = bucle_confirmacion env fe fp ahora ls"
  by (induction ls) (auto simp: Let_def split: option.splits)

lemma pedir_confirmacion_bucle:
  assumes "fecha_valida ahora" "year ahora < 9999" "1 \<le> day fecha_actual"
    and "c = \<lparr>year = year ahora, month = month ahora,
               day = min (day fecha_actual) (dias_del_mes (year ahora) (month ahora))\<rparr>"
    and "ny = (if month ahora = 12 then year ahora + 1 else year ahora)"
    and "nm = (if month ahora = 12 then 1 else month ahora + 1)"
    and "p = \<lparr>year = ny, month = nm, day = min (day fecha_actual) (dias_del_mes ny nm)\<rparr>"
  shows "pedir_confirmacion_fecha (env\<lparr>entradas := ls\<rparr>) texto fecha_actual ahora =
           bucle_confirmacion env (Some c) p ahora ls"
proof -
  have a: "1 \<le> year ahora" "year ahora \<le> 9999" "1 \<le> month ahora" "month ahora \<le> 12"
    using assms(1) by (simp_all add: fecha_valida_def)
  have este: "safe_date (year ahora) (month ahora) (day fecha_actual) = Some c"
    using safe_date_ok [OF a assms(3)] assms(4) by simp
  have r: "1 \<le> ny" "ny \<le> 9999" "1 \<le> nm" "nm \<le> 12"
    using a assms(2,5,6) by auto
  have prox: "safe_date ny nm (day fecha_actual) = Some p"
    using safe_date_ok [OF r assms(3)] assms(7) by simp
  have "ny = (if month ahora + 1 = 13 then year ahora + 1 else year ahora)"
       "nm = (if month ahora + 1 = 13 then 1 else month ahora + 1)"
    using assms(5,6) by auto
  then show ?thesis
    using este prox by (simp add: pedir_confirmacion_fecha_def Let_def bucle_entradas)
qed

lemma bucle_prefijo:
  assumes "\<forall>l \<in> set pre. ilegible env l \<or>
             (lower (strip l) \<in> set respuestas_este \<and> fecha_menor c ahora)"
  shows "bucle_confirmacion env (Some c) p ahora (pre @ resto) =
           bucle_confirmacion env (Some c) p ahora resto"
  using assms by (induction pre) (auto simp: Let_def ilegible_def)

lemma bucle_filtro:
  assumes "fecha_menor c ahora"
  shows "bucle_confirmacion env (Some c) p ahora
           (filter (\<lambda>l. lower (strip l) \<notin> set respuestas_este) ls) =
         bucle_confirmacion env (Some c) p ahora ls"
  using assms by (induction ls) (auto simp: Let_def split: option.splits)

lemma bucle_origen:
  assumes "bucle_confirmacion env (Some c) p ahora ls = Inr g"
  shows "(\<exists>l \<in> set ls. lower (strip l) \<in> set respuestas_este \<and> g = c \<and> \<not> fecha_menor c ahora) \<or>
         (\<exists>l \<in> set ls. lower (strip l) \<in> set respuestas_proximo \<and> g = p) \<or>
         (\<exists>l \<in> set ls. lower (strip l) \<notin> set respuestas_este \<and>
            lower (strip l) \<notin> set respuestas_proximo \<and>
            (strptime_ymd env (lower (strip l)) = Some g \<or>
             dateparser_base env (lower (strip l)) = Some g))"
  using assms
proof (induction ls)
  case Nil
  then show ?case by simp
next
  case (Cons l ls)
  show ?case
  proof (cases "bucle_confirmacion env (Some c) p ahora (l # ls) =
                bucle_confirmacion env (Some c) p ahora ls")
    case True
    then show ?thesis using Cons by auto
  next
    case False
    then show ?thesis using Cons.prems
      by (auto simp: Let_def split: if_splits option.splits)
  qed
qed

lemma procesar_fecha:
  assumes "resolver_fecha env texto = Inr f"
    and "(if fecha_menor f (reloj env) then pedir_confirmacion_fecha env texto f (reloj env)
          else Inr f) = Inr g"
  shows "\<exists>r. procesar_logica_negocio env texto = Inr r \<and> fecha r = strftime_ymd g \<and>
             nombre r = capitalize texto"
  using assms by (simp add: procesar_logica_negocio_def Let_def)


lemma procesar_nombre:
  "procesar_logica_negocio env texto = Inr r \<Longrightarrow> nombre r = capitalize texto"
  by (auto simp: procesar_logica_negocio_def Let_def split: sum.splits if_splits)


lemma meses_es_rango: "map_of meses_es g = Some m \<Longrightarrow> 1 \<le> m \<and> m \<le> 12"
  by (auto simp: meses_es_def split: if_splits)

lemma fecha_dia_semana_Some:
  "fecha_dia_semana (Some f) palabras prox texto_min ahora = Inr (Some f)"
  by (simp add: fecha_dia_semana_def)

lemma resolver_fecha_explicita:
  "fecha_explicita (reloj env) texto = Some f \<Longrightarrow> resolver_fecha env texto = Inr f"
  by (simp add: resolver_fecha_def Let_def fecha_dia_semana_Some)

lemma procesar_sin_escalada:
  assumes "resolver_fecha env texto = Inr f" "\<not> fecha_menor f (reloj env)"
  shows "procesar_logica_negocio env texto =
           Inr \<lparr>nombre = capitalize texto, fecha = strftime_ymd f,
                tipo = detectar_tipo (remover_stopwords (tokenizar texto)),
                prioridad = detectar_prioridad (tokenizar texto) (remover_stopwords (tokenizar texto)),
                materia = detectar_materia (remover_stopwords (tokenizar texto))\<rparr>"
  using assms by (simp add: procesar_logica_negocio_def Let_def)


lemma resolver_fecha_proximo:
  assumes "fecha_explicita (reloj env) texto = None"
    and "list_ex (\<lambda>kw. contiene (lower texto) kw) palabras_proximo"
    and "find (\<lambda>dia. contiene (lower texto) dia) dias_es = Some dia"
    and "obtener_proximo_dia_semana dia (reloj env) True = Inr (Some f)"
  shows "resolver_fecha env texto = Inr f"
  using assms by (simp add: resolver_fecha_def Let_def fecha_dia_semana_def)


lemma buscar_explicita_izquierda:
  "buscar_explicita s = Some g \<Longrightarrow>
     \<exists>pre suf. s = pre @ suf \<and> coincide_explicita suf = Some g \<and>
       (\<forall>k < length pre. coincide_explicita (drop k s) = None)"
proof (induction s)
  case Nil
  then show ?case by simp
next
  case (Cons c cs)
  show ?case
  proof (cases "coincide_explicita (c # cs)")
    case (Some g')
    then have "g' = g" using Cons.prems by simp
    then have "c # cs = [] @ (c # cs) \<and> coincide_explicita (c # cs) = Some g \<and>
       (\<forall>k < length ([] :: string). coincide_explicita (drop k (c # cs)) = None)"
      using Some by simp
    then show ?thesis by blast
  next
    case None
    then have "buscar_explicita cs = Some g" using Cons.prems by simp
    from Cons.IH [OF this] obtain pre suf where
      p: "cs = pre @ suf" "coincide_explicita suf = Some g"
         "\<forall>k < length pre. coincide_explicita (drop k cs) = None" by blast
    have "\<forall>k < length (c # pre). coincide_explicita (drop k (c # cs)) = None"
    proof (intro allI impI)
      fix k assume k: "k < length (c # pre)"
      show "coincide_explicita (drop k (c # cs)) = None"
      proof (cases k)
        case 0
        then show ?thesis using None by simp
      next
        case (Suc j)
        then show ?thesis using k p(3) by simp
      qed
    qed
    then have "c # cs = (c # pre) @ suf \<and> coincide_explicita suf = Some g \<and>
       (\<forall>k < length (c # pre). coincide_explicita (drop k (c # cs)) = None)"
      using p by simp
    then show ?thesis by blast
  qed
qed

lemma safe_date_dia_cero: "d < 1 \<Longrightarrow> safe_date y m d = None"
  by (simp add: safe_date_def clamp_day_def Let_def)

lemma fecha_explicita_dia_cero:
  assumes "extraer_fechas_mejorado texto = Some (g0, g1)" "entero g0 < 1"
  shows "fecha_explicita ahora texto = None"
  using assms by (simp add: fecha_explicita_def Let_def safe_date_dia_cero split: option.splits)

lemma fecha_explicita_sin_mes:
  assumes "extraer_fechas_mejorado texto = Some (g0, g1)" "map_of meses_es g1 = None"
  shows "fecha_explicita ahora texto = None"
  using assms by (simp add: fecha_explicita_def Let_def)

section \<open>Blank text\<close>

lemma espacio_no_puntuacion: "es_espacio c \<Longrightarrow> \<not> es_puntuacion c"
  by (auto simp: es_espacio_def es_puntuacion_def Let_def)

lemma espacio_no_digito: "es_espacio c \<Longrightarrow> \<not> es_digito c"
  by (auto simp: es_espacio_def es_digito_def Let_def)

lemma minuscula_espacio: "es_espacio c \<Longrightarrow> minuscula c = c"
  by (auto simp: es_espacio_def minuscula_def Let_def)

lemma es_espacio_blanco: "es_espacio (CHR '' '')"
  by (simp add: es_espacio_def codigo_def)

lemma colapsar_espacios_blancos:
  "\<forall>c \<in> set s. es_espacio c \<Longrightarrow> \<forall>c \<in> set (colapsar_espacios previo s). es_espacio c"
  by (induction s arbitrary: previo) (auto simp: es_espacio_blanco)

lemma strip_blancos:
  assumes "\<forall>c \<in> set s. es_espacio c"
  shows "strip s = []"
proof -
  have "dropWhile es_espacio s = []" using assms by (induction s) auto
  then show ?thesis by (simp only: strip_def rev.simps dropWhile.simps)
qed

lemma lower_blancos: "\<forall>c \<in> set s. es_espacio c \<Longrightarrow> lower s = s"
  by (simp add: lower_def minuscula_espacio map_idI)

lemma tokenizar_blancos:
  assumes "\<forall>c \<in> set texto. es_espacio c"
  shows "tokenizar texto = []"
proof -
  have "filter (\<lambda>c. \<not> es_puntuacion c) texto = texto"
    using assms espacio_no_puntuacion by (simp add: filter_id_conv)
  moreover have "\<forall>c \<in> set (colapsar_espacios False texto). es_espacio c"
    using colapsar_espacios_blancos [OF assms] .
  ultimately have "normalizar_texto texto = []"
    by (simp add: normalizar_texto_def strip_blancos lower_def)
  then show ?thesis by (simp add: tokenizar_def split_def)
qed

lemma buscar_explicita_sin_digitos:
  "\<forall>c \<in> set s. \<not> es_digito c \<Longrightarrow> buscar_explicita s = None"
  by (induction s) (simp_all add: coincide_explicita_def)

lemma empieza_con_primero: "empieza_con (a # x) s \<Longrightarrow> a \<in> set s"
  by (cases s) auto

lemma contiene_primero: "contiene s (a # x) \<Longrightarrow> a \<in> set s"
  by (induction s) (auto dest: empieza_con_primero)

lemma sin_palabras_clave:
  assumes "\<forall>c \<in> set s. es_espacio c"
  shows "\<not> list_ex (\<lambda>kw. contiene s kw) palabras_proximo"
    and "\<not> list_ex (\<lambda>kw. contiene s kw) palabras_este"
proof -
  have p: "\<not> es_espacio (CHR ''p'')" "\<not> es_espacio (CHR ''s'')" "\<not> es_espacio (CHR ''e'')"
    by (simp_all add: es_espacio_def codigo_def)
  have "\<not> contiene s (a # x)" if "\<not> es_espacio a" for a x
    using contiene_primero [of s a x] assms that by blast
  then show "\<not> list_ex (\<lambda>kw. contiene s kw) palabras_proximo"
    and "\<not> list_ex (\<lambda>kw. contiene s kw) palabras_este"
    using p by (simp_all add: palabras_proximo_def palabras_este_def)
qed

lemma clasificadores_vacios:
  "remover_stopwords [] = []" "detectar_materia [] = []" "detectar_tipo [] = codigos ''Deber''"
  "detectar_prioridad [] [] = ''Media''"
  by (simp_all add: remover_stopwords_def detectar_materia_def detectar_tipo_def
        detectar_prioridad_def DICCIONARIO_MATERIAS_MEJORADO_def tipos_palabras_clave_def
        palabras_urgentes_def palabras_bajas_def Let_def)


section \<open>Normalisation\<close>

lemma codigo_minuscula:
  "codigo (minuscula c) =
     (if (65 \<le> codigo c \<and> codigo c \<le> 90) \<or> (192 \<le> codigo c \<and> codigo c \<le> 222 \<and> codigo c \<noteq> 215)
      then codigo c + 32 else codigo c)"
  by (auto simp: minuscula_def Let_def codigo_def)

lemma es_puntuacion_minuscula: "es_puntuacion (minuscula c) = es_puntuacion c"
  by (auto simp: es_puntuacion_def Let_def codigo_minuscula)

lemma es_espacio_minuscula: "es_espacio (minuscula c) = es_espacio c"
  by (auto simp: es_espacio_def Let_def codigo_minuscula)

lemma codigo_inj: "codigo c = codigo d \<Longrightarrow> c = d"
  by (simp add: codigo_def)

lemma minuscula_idem: "minuscula (minuscula c) = minuscula c"
  by (rule codigo_inj) (auto simp: codigo_minuscula)

lemma minuscula_blanco: "minuscula (CHR '' '') = CHR '' ''"
  by (rule codigo_inj) (simp add: codigo_minuscula, simp add: codigo_def)

lemma lower_filter:
  "filter (\<lambda>c. \<not> es_puntuacion c) (lower s) = lower (filter (\<lambda>c. \<not> es_puntuacion c) s)"
  by (induction s) (simp_all add: lower_def es_puntuacion_minuscula)

lemma lower_colapsar: "colapsar_espacios p (lower s) = lower (colapsar_espacios p s)"
  by (induction s arbitrary: p) (simp_all add: lower_def es_espacio_minuscula minuscula_blanco)

lemma lower_dropWhile: "dropWhile es_espacio (lower s) = lower (dropWhile es_espacio s)"
  by (induction s) (simp_all add: lower_def es_espacio_minuscula)

lemma lower_rev: "rev (lower s) = lower (rev s)"
  by (simp add: lower_def rev_map)

lemma lower_strip: "strip (lower s) = lower (strip s)"
  by (simp add: strip_def lower_dropWhile lower_rev)

lemma lower_idem: "lower (lower s) = lower s"
  by (simp add: lower_def minuscula_idem)

lemma normalizar_lower: "normalizar_texto (lower s) = normalizar_texto s"
  by (simp add: normalizar_texto_def lower_filter lower_colapsar lower_strip lower_idem)

lemma normalizar_sin_puntuacion:
  "normalizar_texto (filter (\<lambda>c. \<not> es_puntuacion c) s) = normalizar_texto s"
  by (simp add: normalizar_texto_def)

lemma set_colapsar: "set (colapsar_espacios p s) \<subseteq> insert (CHR '' '') (set s)"
  by (induction s arbitrary: p) auto

lemma set_strip: "set (strip s) \<subseteq> set s"
proof -
  have "set (dropWhile es_espacio (rev (dropWhile es_espacio s))) \<subseteq> set (rev (dropWhile es_espacio s))"
    by (rule set_dropWhileD [THEN subsetI])
  also have "\<dots> \<subseteq> set s" using set_dropWhileD by fastforce
  finally show ?thesis by (simp add: strip_def)
qed

lemma blanco_no_puntuacion: "\<not> es_puntuacion (CHR '' '')"
  by (simp add: es_puntuacion_def codigo_def)

lemma normalizar_forma:
  assumes "c \<in> set (normalizar_texto s)"
  shows "\<not> es_puntuacion c \<and> minuscula c = c"
proof -
  obtain d where d: "c = minuscula d"
      "d \<in> set (strip (colapsar_espacios False (filter (\<lambda>c. \<not> es_puntuacion c) s)))"
    using assms by (auto simp: normalizar_texto_def lower_def)
  have "d \<in> insert (CHR '' '') (set (filter (\<lambda>c. \<not> es_puntuacion c) s))"
    using d(2) set_strip set_colapsar by blast
  then have "\<not> es_puntuacion d" using blanco_no_puntuacion by auto
  then show ?thesis using d(1) by (simp add: es_puntuacion_minuscula minuscula_idem)
qed

lemma colapsar_filtro:
  "(q \<longrightarrow> p) \<Longrightarrow>
     colapsar_espacios p (filter (\<lambda>c. \<not> es_puntuacion c) (colapsar_espacios q s)) =
     colapsar_espacios p (filter (\<lambda>c. \<not> es_puntuacion c) s)"
proof (induction s arbitrary: p q)
  case Nil
  then show ?case by simp
next
  case (Cons c cs)
  show ?case
  proof (cases "es_espacio c")
    case True
    then show ?thesis
      using Cons.prems Cons.IH [of True True] espacio_no_puntuacion [OF True]
      by (simp add: blanco_no_puntuacion es_espacio_blanco)
  next
    case False
    then show ?thesis
      using Cons.IH [of False p] Cons.IH [of False False] by simp
  qed
qed

lemma normalizar_colapsar:
  "normalizar_texto (colapsar_espacios False s) = normalizar_texto s"
  using colapsar_filtro [of False False s] by (simp add: normalizar_texto_def)

lemma colapsar_blancos:
  "c \<in> set (colapsar_espacios p s) \<Longrightarrow> es_espacio c \<Longrightarrow> c = CHR '' ''"
  by (induction s arbitrary: p) (auto split: if_splits)

lemma normalizar_blancos:
  assumes "c \<in> set (normalizar_texto s)" "es_espacio c"
  shows "c = CHR '' ''"
proof -
  obtain d where d: "c = minuscula d"
      "d \<in> set (strip (colapsar_espacios False (filter (\<lambda>c. \<not> es_puntuacion c) s)))"
    using assms by (auto simp: normalizar_texto_def lower_def)
  have "d \<in> set (colapsar_espacios False (filter (\<lambda>c. \<not> es_puntuacion c) s))"
    using d(2) set_strip by blast
  moreover have "es_espacio d" using assms(2) d(1) by (simp add: es_espacio_minuscula)
  ultimately have "d = CHR '' ''" using colapsar_blancos by blast
  then show ?thesis using d(1) by (simp add: minuscula_blanco)
qed

lemma strip_extremos:
  assumes "strip s \<noteq> []"
  shows "\<not> es_espacio (hd (strip s)) \<and> \<not> es_espacio (last (strip s))"
proof -
  define t where "t = dropWhile es_espacio s"
  define u where "u = dropWhile es_espacio (rev t)"
  have st: "strip s = rev u" by (simp add: strip_def t_def u_def)
  have u: "u \<noteq> []" using assms st by simp
  have hu: "\<not> es_espacio (hd u)" using u hd_dropWhile [of es_espacio "rev t"] by (simp add: u_def)
  have "rev t = takeWhile es_espacio (rev t) @ u" by (simp add: u_def)
  then have t: "t = rev u @ rev (takeWhile es_espacio (rev t))"
    by (metis rev_append rev_rev_ident)
  have tn: "t \<noteq> []" using t u by auto
  have "\<not> es_espacio (hd t)" using tn hd_dropWhile [of es_espacio s] by (simp add: t_def)
  moreover have "hd t = hd (rev u)" using t u by (metis hd_append2 rev_is_Nil_conv)
  ultimately have "\<not> es_espacio (hd (strip s))" using st by simp
  moreover have "last (strip s) = hd u" using st u by (simp add: last_rev)
  ultimately show ?thesis using hu by simp
qed

lemma normalizar_extremos:
  assumes "normalizar_texto s \<noteq> []"
  shows "\<not> es_espacio (hd (normalizar_texto s)) \<and> \<not> es_espacio (last (normalizar_texto s))"
proof -
  define t where "t = strip (colapsar_espacios False (filter (\<lambda>c. \<not> es_puntuacion c) s))"
  have n: "normalizar_texto s = map minuscula t" by (simp add: normalizar_texto_def lower_def t_def)
  have t: "t \<noteq> []" using assms n by simp
  have "\<not> es_espacio (hd t) \<and> \<not> es_espacio (last t)"
    using strip_extremos t unfolding t_def by blast
  then show ?thesis using n t by (simp add: hd_map last_map es_espacio_minuscula)
qed

text \<open>A string in which every whitespace character is a space and no two stand side by
  side; the flag says that a space stands just before the string.\<close>

fun colapsado :: "bool \<Rightarrow> string \<Rightarrow> bool" where
  "colapsado _ [] = True"
| "colapsado previo (c # cs) =
     (if es_espacio c then \<not> previo \<and> c = CHR '' '' \<and> colapsado True cs else colapsado False cs)"

lemma colapsado_colapsar: "colapsado p (colapsar_espacios p s)"
proof (induction s arbitrary: p)
  case Nil
  then show ?case by simp
next
  case (Cons c cs)
  show ?case
  proof (cases "es_espacio c")
    case True
    show ?thesis
    proof (cases p)
      case True
      then show ?thesis using \<open>es_espacio c\<close> Cons.IH [of True] by simp
    next
      case False
      then show ?thesis using \<open>es_espacio c\<close> Cons.IH [of True] by (simp add: es_espacio_blanco)
    qed
  next
    case False
    then show ?thesis using Cons.IH [of False] by simp
  qed
qed

lemma colapsado_debil: "colapsado True s \<Longrightarrow> colapsado False s"
  by (cases s) (auto split: if_splits)

lemma colapsado_fijo: "colapsado p s \<Longrightarrow> colapsar_espacios p s = s"
  by (induction s arbitrary: p) (auto split: if_splits)

lemma colapsado_prefijo: "colapsado p (xs @ ys) \<Longrightarrow> colapsado p xs"
  by (induction xs arbitrary: p) (auto split: if_splits)

lemma colapsado_sufijo: "colapsado p (xs @ ys) \<Longrightarrow> colapsado False ys"
proof (induction xs arbitrary: p)
  case Nil
  then show ?case using colapsado_debil by (cases p) simp_all
next
  case (Cons x xs)
  then show ?case by (auto split: if_splits)
qed

lemma strip_infijo: "\<exists>xs ys. s = xs @ strip s @ ys"
proof -
  define t where "t = dropWhile es_espacio s"
  have "rev t = takeWhile es_espacio (rev t) @ dropWhile es_espacio (rev t)" by simp
  then have "t = rev (dropWhile es_espacio (rev t)) @ rev (takeWhile es_espacio (rev t))"
    by (metis rev_append rev_rev_ident)
  then have "t = strip s @ rev (takeWhile es_espacio (rev t))" by (simp add: strip_def t_def)
  moreover have "s = takeWhile es_espacio s @ t" by (simp add: t_def)
  ultimately show ?thesis by metis
qed

lemma colapsado_strip: "colapsado p s \<Longrightarrow> colapsado False (strip s)"
proof -
  assume c: "colapsado p s"
  obtain xs ys where s: "s = xs @ strip s @ ys" using strip_infijo by blast
  have "colapsado False (strip s @ ys)" using c s colapsado_sufijo [of p xs "strip s @ ys"] by simp
  then show ?thesis using colapsado_prefijo by blast
qed

lemma dropWhile_fijo: "s = [] \<or> \<not> P (hd s) \<Longrightarrow> dropWhile P s = s"
  by (cases s) auto

lemma strip_fijo:
  assumes "s = [] \<or> (\<not> es_espacio (hd s) \<and> \<not> es_espacio (last s))"
  shows "strip s = s"
proof (cases "s = []")
  case True
  then show ?thesis by (simp add: strip_def)
next
  case False
  then have h: "\<not> es_espacio (hd s)" "\<not> es_espacio (last s)" using assms by simp_all
  have a: "dropWhile es_espacio s = s" using h(1) dropWhile_fijo [of s es_espacio] by simp
  have "hd (rev s) = last s" using False by (simp add: hd_rev)
  then have b: "dropWhile es_espacio (rev s) = rev s"
    using h(2) dropWhile_fijo [of "rev s" es_espacio] by simp
  show ?thesis by (simp add: strip_def a b)
qed

lemma strip_idem: "strip (strip s) = strip s"
  using strip_extremos [of s] strip_fijo [of "strip s"] by blast

lemma filter_fijo: "\<forall>c \<in> set s. P c \<Longrightarrow> filter P s = s"
  by (induction s) auto

lemma normalizar_idem: "normalizar_texto (normalizar_texto s) = normalizar_texto s"
proof -
  define t where "t = strip (colapsar_espacios False (filter (\<lambda>c. \<not> es_puntuacion c) s))"
  have n: "normalizar_texto s = lower t" by (simp add: normalizar_texto_def t_def)
  have "\<forall>c \<in> set (lower t). \<not> es_puntuacion c" using normalizar_forma [of _ s] n by auto
  then have f: "filter (\<lambda>c. \<not> es_puntuacion c) (lower t) = lower t" by (rule filter_fijo)
  have "colapsado False t" unfolding t_def by (rule colapsado_strip [OF colapsado_colapsar])
  then have c: "colapsar_espacios False t = t" by (rule colapsado_fijo)
  have st: "strip t = t" unfolding t_def by (rule strip_idem)
  have "normalizar_texto (lower t) = lower (strip (colapsar_espacios False (lower t)))"
    by (simp add: normalizar_texto_def f)
  also have "\<dots> = lower t" by (simp add: lower_colapsar lower_strip lower_idem c st)
  finally show ?thesis using n by simp
qed

lemma buscar_depende_de_normal:
  "normalizar_texto e = normalizar_texto e' \<Longrightarrow>
     buscar_concepto_fuzzy e ops u = buscar_concepto_fuzzy e' ops u"
  by (simp add: buscar_concepto_fuzzy_def)

section \<open>The fields of the record\<close>

lemma procesar_campos:
  "procesar_logica_negocio env texto = Inr r \<Longrightarrow>
     tipo r = detectar_tipo (remover_stopwords (tokenizar texto)) \<and>
     prioridad r = detectar_prioridad (tokenizar texto) (remover_stopwords (tokenizar texto)) \<and>
     materia r = detectar_materia (remover_stopwords (tokenizar texto))"
  by (auto simp: procesar_logica_negocio_def Let_def split: sum.splits if_splits)

lemma procesar_devuelve:
  assumes "fecha_valida (reloj env)" "year (reloj env) < 9999"
    and "\<forall>f. dateparser_futuro env (lower texto) = Some f \<longrightarrow> \<not> fecha_menor f (reloj env)"
  shows "\<exists>r. procesar_logica_negocio env texto = Inr r"
proof -
  obtain f where f: "resolver_fecha env texto = Inr f"
      "no_pasada (reloj env) f \<or> dateparser_futuro env (lower texto) = Some f"
    using resolver_fecha_origen [OF assms(1,2)] by blast
  then have "\<not> fecha_menor f (reloj env)" using assms(3) by (auto simp: no_pasada_def)
  from procesar_sin_escalada [OF f(1) this] show ?thesis by simp
qed

section \<open>Stopwords and negation words\<close>

lemma no_es_stopword: "''no'' \<in> set STOPWORDS_ES"
  by (simp add: STOPWORDS_ES_def)

lemma negaciones_conservadas:
  "w \<in> {''nunca'', ''jam'' @ [CHR 0xE1] @ ''s'', ''nada'', ''ni''} \<Longrightarrow> w \<notin> set STOPWORDS_ES"
  by (auto simp: STOPWORDS_ES_def)

text \<open>
  Claim C4, as stated: none of the five negation words is a stopword, so
  \<open>remover_stopwords\<close> keeps every occurrence of each. The word \<open>no\<close> is in
  \<open>STOPWORDS_ES\<close>, and filtering a token list drops it.
\<close>

theorem C4_counterexample:
  "''no'' \<in> set STOPWORDS_ES \<and>
   remover_stopwords [''no'', ''urgente''] = [''urgente'']"
  by (simp add: remover_stopwords_def STOPWORDS_ES_def)

text \<open>
  Claim C4, amended: the negation words \<open>nunca\<close>, \<open>jamas\<close> (with a-acute), \<open>nada\<close> and \<open>ni\<close> are not
  stopwords, and \<open>remover_stopwords\<close> keeps every occurrence of each of them, in order;
  \<open>no\<close> is a stopword and no occurrence of it survives the filter.
\<close>

theorem C4_negation_words_kept:
  assumes "N = {''nunca'', ''jam'' @ [CHR 0xE1] @ ''s'', ''nada'', ''ni''}"
  shows "(\<forall>w \<in> N. w \<notin> set STOPWORDS_ES) \<and>
         filter (\<lambda>t. t \<in> N) (remover_stopwords tokens) = filter (\<lambda>t. t \<in> N) tokens \<and>
         (\<forall>w \<in> N. count_list (remover_stopwords tokens) w = count_list tokens w) \<and>
         ''no'' \<in> set STOPWORDS_ES \<and> ''no'' \<notin> set (remover_stopwords tokens)"
proof -
  have fuera: "\<forall>w \<in> N. w \<notin> set STOPWORDS_ES"
    using assms negaciones_conservadas by blast
  have orden: "filter (\<lambda>t. t \<in> N) (remover_stopwords tokens) = filter (\<lambda>t. t \<in> N) tokens"
    unfolding remover_stopwords_def filter_filter
    by (rule filter_cong) (use fuera in auto)
  have cuenta: "count_list (remover_stopwords tokens) w = count_list tokens w" if "w \<in> N" for w
  proof -
    have "w \<notin> set STOPWORDS_ES" using fuera that by blast
    then show ?thesis
      unfolding remover_stopwords_def by (induction tokens) auto
  qed
  have quitado: "''no'' \<notin> set (remover_stopwords tokens)"
    using no_es_stopword by (simp add: remover_stopwords_def)
  show ?thesis
    using fuera orden cuenta quitado no_es_stopword by blast
qed

theorem C4_negation_words_kept_witness:
  "filter (\<lambda>t. t \<in> {''nunca'', ''jam'' @ [CHR 0xE1] @ ''s'', ''nada'', ''ni''})
     (remover_stopwords [''no'', ''ni'', ''el'', ''nunca'', ''examen'', ''ni'']) =
     [''ni'', ''nunca'', ''ni''] \<and>
   ''no'' \<notin> set (remover_stopwords [''no'', ''ni'', ''el'', ''nunca'', ''examen'', ''ni''])"
  using C4_negation_words_kept
    [of "{''nunca'', ''jam'' @ [CHR 0xE1] @ ''s'', ''nada'', ''ni''}"
        "[''no'', ''ni'', ''el'', ''nunca'', ''examen'', ''ni'']"]
  by simp

section \<open>The negation window\<close>

text \<open>What the code computes: a negation word at a position from \<open>idx - ventana\<close> up to
  \<open>idx + ventana - 1\<close>, the position of the word itself included.\<close>

lemma tiene_negacion_ventana:
  "tiene_negacion tokens palabra ventana \<longleftrightarrow>
     palabra \<in> set tokens \<and>
     (\<exists>i < length tokens. int (indice tokens palabra) - int ventana \<le> int i \<and>
         i < indice tokens palabra + ventana \<and> tokens ! i \<in> set negaciones)"
proof (cases "palabra \<in> set tokens")
  case False
  then show ?thesis by (simp add: tiene_negacion_def)
next
  case True
  let ?idx = "indice tokens palabra"
  have "tiene_negacion tokens palabra ventana \<longleftrightarrow>
          (\<exists>i \<in> {nat (max 0 (int ?idx - int ventana))..<min (length tokens) (?idx + ventana)}.
              tokens ! i \<in> set negaciones)"
    using True by (simp add: tiene_negacion_def Let_def list_ex_iff)
  also have "\<dots> \<longleftrightarrow> (\<exists>i < length tokens. int ?idx - int ventana \<le> int i \<and>
                 i < ?idx + ventana \<and> tokens ! i \<in> set negaciones)"
  proof -
    have b: "nat (max 0 (int ?idx - int ventana)) \<le> i \<longleftrightarrow> int ?idx - int ventana \<le> int i" for i
      by linarith
    show ?thesis by (auto simp: b)
  qed
  finally show ?thesis using True by simp
qed

text \<open>
  Claim C5: \<open>tiene_negacion\<close> is true exactly when the word occurs and a negation word
  stands within 3 positions before or within 3 positions after its first occurrence.
  The window of the code ends at \<open>idx + ventana\<close> exclusive: with \<open>urgente\<close> at
  position 0 and \<open>no\<close> at position 3, three positions after it, the code answers False.
\<close>

theorem C5_window_misses_third_position_after:
  "tiene_negacion [''urgente'', ''para'', ''hoy'', ''no''] ''urgente'' 3 = False \<and>
   [''urgente'', ''para'', ''hoy'', ''no''] ! (indice [''urgente'', ''para'', ''hoy'', ''no''] ''urgente'' + 3)
     \<in> set negaciones \<and>
   tiene_negacion [''no'', ''para'', ''hoy'', ''urgente''] ''urgente'' 3 = True"
  by (simp add: tiene_negacion_def negaciones_def Let_def upt_conv_Cons)

section \<open>The fuzzy matcher returns the first best candidate\<close>

text \<open>
  Claim C8: \<open>buscar_concepto_fuzzy\<close> normalises the input and every candidate, the
  similarity of each candidate is the ratio of the two normal forms and lies between 0 and
  1, the result is none exactly when every candidate is below the threshold, and otherwise
  it is a candidate at or above the threshold such that every candidate before it in the
  list is strictly less similar and every candidate after it is at most as similar: the
  first maximum. In particular \<open>examne\<close> against \<open>examen\<close> and \<open>proyecto\<close> at 0.75 gives
  \<open>examen\<close>. Normalisation is what the comparison sees: a normal form holds no punctuation
  and no capital letter; neither the result nor any similarity changes when the input or a
  candidate is put in lower case or loses its punctuation; a candidate with the normal
  form of the input (shorter than 200 characters, the size from which \<open>difflib\<close> ignores
  popular characters) has similarity 1. So \<open>EXAMEN!!\<close> between blanks finds \<open>Examen.\<close> at
  threshold 1, and \<open>a   b\<close> finds \<open>a b\<close> at 0.9, which the ratio of the raw strings, 3/4,
  would not reach. In a normal form every whitespace character is a space, none stands
  at either end, and normalising it again changes nothing; collapsing the whitespace of
  the input or of a candidate changes neither the result nor any similarity.
\<close>

theorem C8_fuzzy_first_maximum:
  "(\<forall>opc \<in> set opciones.
      similitud_de entrada opc = ratio (normalizar_texto entrada) (normalizar_texto opc) \<and>
      0 \<le> similitud_de entrada opc \<and> similitud_de entrada opc \<le> 1) \<and>
   (buscar_concepto_fuzzy entrada opciones umbral = None \<longleftrightarrow>
      (\<forall>opc \<in> set opciones. similitud_de entrada opc < umbral)) \<and>
   (\<forall>c. buscar_concepto_fuzzy entrada opciones umbral = Some c \<longrightarrow>
      (\<exists>pre post. opciones = pre @ c # post \<and> umbral \<le> similitud_de entrada c \<and>
         (\<forall>p \<in> set pre. similitud_de entrada p < similitud_de entrada c) \<and>
         (\<forall>q \<in> set post. similitud_de entrada q \<le> similitud_de entrada c))) \<and>
   buscar_concepto_fuzzy ''examne'' [''examen'', ''proyecto''] (3 / 4) = Some ''examen'' \<and>
   (\<forall>c \<in> set (normalizar_texto entrada). \<not> es_puntuacion c \<and> minuscula c = c) \<and>
   (\<forall>opc \<in> set opciones. \<forall>c \<in> set (normalizar_texto opc). \<not> es_puntuacion c \<and> minuscula c = c) \<and>
   normalizar_texto (lower entrada) = normalizar_texto entrada \<and>
   normalizar_texto (filter (\<lambda>c. \<not> es_puntuacion c) entrada) = normalizar_texto entrada \<and>
   buscar_concepto_fuzzy (lower entrada) opciones umbral =
     buscar_concepto_fuzzy entrada opciones umbral \<and>
   buscar_concepto_fuzzy (filter (\<lambda>c. \<not> es_puntuacion c) entrada) opciones umbral =
     buscar_concepto_fuzzy entrada opciones umbral \<and>
   (\<forall>opc \<in> set opciones.
      similitud_de entrada (lower opc) = similitud_de entrada opc \<and>
      similitud_de entrada (filter (\<lambda>c. \<not> es_puntuacion c) opc) = similitud_de entrada opc \<and>
      (normalizar_texto opc = normalizar_texto entrada \<and> length (normalizar_texto opc) < 200 \<longrightarrow>
         similitud_de entrada opc = 1)) \<and>
   normalizar_texto ''  Hola,   MUNDO!  '' = ''hola mundo'' \<and>
   buscar_concepto_fuzzy ''  EXAMEN!! '' [''proyecto'', ''Examen.''] 1 = Some ''Examen.'' \<and>
   buscar_concepto_fuzzy ''a   b'' [''a b''] (9 / 10) = Some ''a b'' \<and>
   (\<forall>c \<in> set (normalizar_texto entrada). es_espacio c \<longrightarrow> c = CHR '' '') \<and>
   (normalizar_texto entrada \<noteq> [] \<longrightarrow>
      \<not> es_espacio (hd (normalizar_texto entrada)) \<and>
      \<not> es_espacio (last (normalizar_texto entrada))) \<and>
   normalizar_texto (colapsar_espacios False entrada) = normalizar_texto entrada \<and>
   normalizar_texto (normalizar_texto entrada) = normalizar_texto entrada \<and>
   buscar_concepto_fuzzy (colapsar_espacios False entrada) opciones umbral =
     buscar_concepto_fuzzy entrada opciones umbral \<and>
   buscar_concepto_fuzzy (normalizar_texto entrada) opciones umbral =
     buscar_concepto_fuzzy entrada opciones umbral \<and>
   (\<forall>opc \<in> set opciones.
      (\<forall>c \<in> set (normalizar_texto opc). es_espacio c \<longrightarrow> c = CHR '' '') \<and>
      (normalizar_texto opc \<noteq> [] \<longrightarrow>
         \<not> es_espacio (hd (normalizar_texto opc)) \<and> \<not> es_espacio (last (normalizar_texto opc))) \<and>
      similitud_de entrada (colapsar_espacios False opc) = similitud_de entrada opc \<and>
      similitud_de entrada (normalizar_texto opc) = similitud_de entrada opc)"
proof -
  have rango: "\<forall>opc \<in> set opciones.
      similitud_de entrada opc = ratio (normalizar_texto entrada) (normalizar_texto opc) \<and>
      0 \<le> similitud_de entrada opc \<and> similitud_de entrada opc \<le> 1"
    by (simp add: similitud_de_def ratio_rango)
  have ejemplo: "buscar_concepto_fuzzy ''examne'' [''examen'', ''proyecto''] (3 / 4) = Some ''examen''"
    by code_simp
  have forma: "\<forall>c \<in> set (normalizar_texto s). \<not> es_puntuacion c \<and> minuscula c = c" for s
    using normalizar_forma by blast
  have inv: "buscar_concepto_fuzzy (lower entrada) opciones umbral =
               buscar_concepto_fuzzy entrada opciones umbral"
      "buscar_concepto_fuzzy (filter (\<lambda>c. \<not> es_puntuacion c) entrada) opciones umbral =
               buscar_concepto_fuzzy entrada opciones umbral"
    by (rule buscar_depende_de_normal, simp add: normalizar_lower normalizar_sin_puntuacion)+
  have cand: "similitud_de entrada (lower opc) = similitud_de entrada opc \<and>
      similitud_de entrada (filter (\<lambda>c. \<not> es_puntuacion c) opc) = similitud_de entrada opc \<and>
      (normalizar_texto opc = normalizar_texto entrada \<and> length (normalizar_texto opc) < 200 \<longrightarrow>
         similitud_de entrada opc = 1)" for opc
    by (auto simp: similitud_de_def normalizar_lower normalizar_sin_puntuacion intro: ratio_refl)
  have e1: "normalizar_texto ''  Hola,   MUNDO!  '' = ''hola mundo''" by code_simp
  have e2: "buscar_concepto_fuzzy ''  EXAMEN!! '' [''proyecto'', ''Examen.''] 1 = Some ''Examen.''"
    by code_simp
  have e3: "buscar_concepto_fuzzy ''a   b'' [''a b''] (9 / 10) = Some ''a b''" by code_simp
  have a: "(\<forall>opc \<in> set opciones.
      similitud_de entrada opc = ratio (normalizar_texto entrada) (normalizar_texto opc) \<and>
      0 \<le> similitud_de entrada opc \<and> similitud_de entrada opc \<le> 1) \<and>
   (buscar_concepto_fuzzy entrada opciones umbral = None \<longleftrightarrow>
      (\<forall>opc \<in> set opciones. similitud_de entrada opc < umbral)) \<and>
   (\<forall>c. buscar_concepto_fuzzy entrada opciones umbral = Some c \<longrightarrow>
      (\<exists>pre post. opciones = pre @ c # post \<and> umbral \<le> similitud_de entrada c \<and>
         (\<forall>p \<in> set pre. similitud_de entrada p < similitud_de entrada c) \<and>
         (\<forall>q \<in> set post. similitud_de entrada q \<le> similitud_de entrada c))) \<and>
   buscar_concepto_fuzzy ''examne'' [''examen'', ''proyecto''] (3 / 4) = Some ''examen''"
    using rango buscar_None_iff [of entrada opciones umbral]
      buscar_Some_primero_maximo [of entrada opciones umbral] ejemplo
    by blast
  have b: "(\<forall>c \<in> set (normalizar_texto entrada). \<not> es_puntuacion c \<and> minuscula c = c) \<and>
   (\<forall>opc \<in> set opciones. \<forall>c \<in> set (normalizar_texto opc). \<not> es_puntuacion c \<and> minuscula c = c) \<and>
   normalizar_texto (lower entrada) = normalizar_texto entrada \<and>
   normalizar_texto (filter (\<lambda>c. \<not> es_puntuacion c) entrada) = normalizar_texto entrada"
    using forma by (simp add: normalizar_lower normalizar_sin_puntuacion)
  have c: "(\<forall>opc \<in> set opciones.
      similitud_de entrada (lower opc) = similitud_de entrada opc \<and>
      similitud_de entrada (filter (\<lambda>c. \<not> es_puntuacion c) opc) = similitud_de entrada opc \<and>
      (normalizar_texto opc = normalizar_texto entrada \<and> length (normalizar_texto opc) < 200 \<longrightarrow>
         similitud_de entrada opc = 1))"
    using cand by blast
  have blancos: "(\<forall>c \<in> set (normalizar_texto s). es_espacio c \<longrightarrow> c = CHR '' '') \<and>
      (normalizar_texto s \<noteq> [] \<longrightarrow>
         \<not> es_espacio (hd (normalizar_texto s)) \<and> \<not> es_espacio (last (normalizar_texto s)))" for s
    using normalizar_blancos [of _ s] normalizar_extremos [of s] by blast
  have inv2: "buscar_concepto_fuzzy (colapsar_espacios False entrada) opciones umbral =
               buscar_concepto_fuzzy entrada opciones umbral"
      "buscar_concepto_fuzzy (normalizar_texto entrada) opciones umbral =
               buscar_concepto_fuzzy entrada opciones umbral"
    by (rule buscar_depende_de_normal, simp add: normalizar_colapsar normalizar_idem)+
  have cand2: "similitud_de entrada (colapsar_espacios False opc) = similitud_de entrada opc \<and>
      similitud_de entrada (normalizar_texto opc) = similitud_de entrada opc" for opc
    by (simp add: similitud_de_def normalizar_colapsar normalizar_idem)
  have d: "(\<forall>opc \<in> set opciones.
      (\<forall>c \<in> set (normalizar_texto opc). es_espacio c \<longrightarrow> c = CHR '' '') \<and>
      (normalizar_texto opc \<noteq> [] \<longrightarrow>
         \<not> es_espacio (hd (normalizar_texto opc)) \<and> \<not> es_espacio (last (normalizar_texto opc))) \<and>
      similitud_de entrada (colapsar_espacios False opc) = similitud_de entrada opc \<and>
      similitud_de entrada (normalizar_texto opc) = similitud_de entrada opc)"
    using blancos cand2 by blast
  have e: "(\<forall>c \<in> set (normalizar_texto entrada). es_espacio c \<longrightarrow> c = CHR '' '') \<and>
   (normalizar_texto entrada \<noteq> [] \<longrightarrow>
      \<not> es_espacio (hd (normalizar_texto entrada)) \<and>
      \<not> es_espacio (last (normalizar_texto entrada))) \<and>
   normalizar_texto (colapsar_espacios False entrada) = normalizar_texto entrada \<and>
   normalizar_texto (normalizar_texto entrada) = normalizar_texto entrada"
    using blancos [of entrada] by (simp add: normalizar_colapsar normalizar_idem)
  show ?thesis
    using a b inv c e1 e2 e3 e inv2 d
    apply -
    apply (elim conjE)
    apply (intro conjI)
    apply assumption+
    done
qed

theorem C8_fuzzy_first_maximum_witness:
  "\<exists>pre post. [''proyecto'', ''Examen.'', ''exmen''] = pre @ ''Examen.'' # post \<and>
      3 / 4 \<le> similitud_de '' EXAMNE!'' ''Examen.'' \<and>
      (\<forall>p \<in> set pre. similitud_de '' EXAMNE!'' p < similitud_de '' EXAMNE!'' ''Examen.'') \<and>
      (\<forall>q \<in> set post. similitud_de '' EXAMNE!'' q \<le> similitud_de '' EXAMNE!'' ''Examen.'')"
proof -
  have "buscar_concepto_fuzzy '' EXAMNE!'' [''proyecto'', ''Examen.'', ''exmen''] (3 / 4) =
          Some ''Examen.''"
    by code_simp
  then show ?thesis
    using C8_fuzzy_first_maximum [where entrada = "'' EXAMNE!''"
        and opciones = "[''proyecto'', ''Examen.'', ''exmen'']" and umbral = "3 / 4"]
    by blast
qed

text \<open>
  Claim C10: \<open>buscar_concepto_fuzzy\<close> returns none or an element of the candidate list
  as it was given; a candidate that normalisation changes comes back in its original form.
\<close>

theorem C10_fuzzy_returns_given_candidate:
  "(buscar_concepto_fuzzy entrada opciones umbral = None \<or>
    (\<exists>c. buscar_concepto_fuzzy entrada opciones umbral = Some c \<and> c \<in> set opciones)) \<and>
   buscar_concepto_fuzzy ''examen'' [''Examen!''] (3 / 4) = Some ''Examen!'' \<and>
   normalizar_texto ''Examen!'' = ''examen''"
proof -
  have "\<exists>c. buscar_concepto_fuzzy entrada opciones umbral = Some c \<and> c \<in> set opciones"
    if hay: "buscar_concepto_fuzzy entrada opciones umbral \<noteq> None"
  proof -
    obtain c where c: "buscar_concepto_fuzzy entrada opciones umbral = Some c"
      using hay by auto
    from buscar_Some_primero_maximo [OF this] have "c \<in> set opciones" by auto
    then show ?thesis using c by blast
  qed
  moreover have "buscar_concepto_fuzzy ''examen'' [''Examen!''] (3 / 4) = Some ''Examen!''"
    by code_simp
  moreover have "normalizar_texto ''Examen!'' = ''examen''"
    by code_simp
  ultimately show ?thesis by blast
qed

theorem C10_fuzzy_returns_given_candidate_witness:
  "buscar_concepto_fuzzy ''proyeto'' [''examen'', ''Proyecto'', ''deber''] (3 / 4) = Some ''Proyecto'' \<and>
   ''Proyecto'' \<in> set [''examen'', ''Proyecto'', ''deber'']"
proof -
  have "buscar_concepto_fuzzy ''proyeto'' [''examen'', ''Proyecto'', ''deber''] (3 / 4) = Some ''Proyecto''"
    by code_simp
  then show ?thesis
    using C10_fuzzy_returns_given_candidate [of "''proyeto''" "[''examen'', ''Proyecto'', ''deber'']" "3 / 4"]
    by simp
qed

section \<open>The date of the record\<close>

text \<open>
  Claim C1: for every input text the interpreter returns a record whose \<open>fecha\<close> is a
  valid calendar date written \<open>YYYY-MM-DD\<close> and not before the reference date, provided
  the confirmation step, when it is reached, returns a valid date that is not in the past.
  The reference instant is a \<open>datetime\<close> before year 9999 and the fallback parser returns
  \<open>datetime\<close> objects. Only a date of the fallback parser can reach the confirmation step.
  Within that step, for every sequence of answers (\<open>c\<close> is the same day of the current
  month, clamped, and \<open>p\<close> the same day of the next month, clamped, the year going up
  by one after December):
  \<^item> a user who only answers \<open>este\<close> gets \<open>c\<close> exactly when \<open>c\<close> is not before the
    reference date, and otherwise no date at all;
  \<^item> the answer \<open>proximo\<close> on the first line gives \<open>p\<close>;
  \<^item> when \<open>c\<close> is before the reference date, every answer \<open>este\<close> is refused, wherever
    it stands: the step returns what it returns on the answers without them;
  \<^item> after any number of lines that are not understood, the answer \<open>este\<close> gives \<open>c\<close>
    when \<open>c\<close> is not before the reference date, and otherwise the step goes on with the
    lines that follow;
  \<^item> after any number of lines that are not understood or are a refused \<open>este\<close>, the
    answer \<open>proximo\<close> gives \<open>p\<close>;
  \<^item> a date the step returns is \<open>c\<close>, on an answer \<open>este\<close> and with \<open>c\<close> not before the
    reference date, or \<open>p\<close>, on an answer \<open>proximo\<close>, or the date that \<open>strptime\<close> or
    \<open>dateparser\<close> reads in another answer.
\<close>

theorem C1_fecha_valida_y_no_pasada:
  assumes "fecha_valida (reloj env)" "year (reloj env) < 9999"
    and "\<forall>f. dateparser_futuro env (lower texto) = Some f \<longrightarrow> fecha_valida f"
    and "\<forall>f. dateparser_futuro env (lower texto) = Some f \<and> fecha_menor f (reloj env) \<longrightarrow>
           (\<exists>g. pedir_confirmacion_fecha env texto f (reloj env) = Inr g \<and> no_pasada (reloj env) g)"
  shows "(\<exists>r d. procesar_logica_negocio env texto = Inr r \<and> fecha r = strftime_ymd d \<and>
            es_formato_ymd (fecha r) \<and> fecha_valida d \<and> \<not> fecha_menor d (reloj env)) \<and>
         (\<forall>fa c. 1 \<le> day fa \<and> entradas env \<noteq> [] \<and>
            (\<forall>l \<in> set (entradas env). lower (strip l) \<in> set respuestas_este) \<and>
            c = \<lparr>year = year (reloj env), month = month (reloj env),
                 day = min (day fa) (dias_del_mes (year (reloj env)) (month (reloj env)))\<rparr> \<longrightarrow>
            pedir_confirmacion_fecha env texto fa (reloj env) =
              (if \<not> fecha_menor c (reloj env) then Inr c else Inl EOFError)) \<and>
         (\<forall>fa l ls ny nm. 1 \<le> day fa \<and> entradas env = l # ls \<and>
            lower (strip l) \<in> set respuestas_proximo \<and>
            ny = (if month (reloj env) = 12 then year (reloj env) + 1 else year (reloj env)) \<and>
            nm = (if month (reloj env) = 12 then 1 else month (reloj env) + 1) \<longrightarrow>
            pedir_confirmacion_fecha env texto fa (reloj env) =
              Inr \<lparr>year = ny, month = nm, day = min (day fa) (dias_del_mes ny nm)\<rparr>) \<and>
         (\<forall>fa c. 1 \<le> day fa \<and>
            c = \<lparr>year = year (reloj env), month = month (reloj env),
                 day = min (day fa) (dias_del_mes (year (reloj env)) (month (reloj env)))\<rparr> \<and>
            fecha_menor c (reloj env) \<longrightarrow>
            pedir_confirmacion_fecha env texto fa (reloj env) =
              pedir_confirmacion_fecha
                (env\<lparr>entradas := filter (\<lambda>l. lower (strip l) \<notin> set respuestas_este) (entradas env)\<rparr>)
                texto fa (reloj env)) \<and>
         (\<forall>fa c pre l resto. 1 \<le> day fa \<and>
            c = \<lparr>year = year (reloj env), month = month (reloj env),
                 day = min (day fa) (dias_del_mes (year (reloj env)) (month (reloj env)))\<rparr> \<and>
            entradas env = pre @ l # resto \<and> (\<forall>x \<in> set pre. ilegible env x) \<and>
            lower (strip l) \<in> set respuestas_este \<longrightarrow>
            pedir_confirmacion_fecha env texto fa (reloj env) =
              (if \<not> fecha_menor c (reloj env) then Inr c
               else pedir_confirmacion_fecha (env\<lparr>entradas := resto\<rparr>) texto fa (reloj env))) \<and>
         (\<forall>fa c pre l resto ny nm. 1 \<le> day fa \<and>
            c = \<lparr>year = year (reloj env), month = month (reloj env),
                 day = min (day fa) (dias_del_mes (year (reloj env)) (month (reloj env)))\<rparr> \<and>
            entradas env = pre @ l # resto \<and>
            (\<forall>x \<in> set pre. ilegible env x \<or>
               (lower (strip x) \<in> set respuestas_este \<and> fecha_menor c (reloj env))) \<and>
            lower (strip l) \<in> set respuestas_proximo \<and>
            ny = (if month (reloj env) = 12 then year (reloj env) + 1 else year (reloj env)) \<and>
            nm = (if month (reloj env) = 12 then 1 else month (reloj env) + 1) \<longrightarrow>
            pedir_confirmacion_fecha env texto fa (reloj env) =
              Inr \<lparr>year = ny, month = nm, day = min (day fa) (dias_del_mes ny nm)\<rparr>) \<and>
         (\<forall>fa c ny nm p g. 1 \<le> day fa \<and>
            c = \<lparr>year = year (reloj env), month = month (reloj env),
                 day = min (day fa) (dias_del_mes (year (reloj env)) (month (reloj env)))\<rparr> \<and>
            ny = (if month (reloj env) = 12 then year (reloj env) + 1 else year (reloj env)) \<and>
            nm = (if month (reloj env) = 12 then 1 else month (reloj env) + 1) \<and>
            p = \<lparr>year = ny, month = nm, day = min (day fa) (dias_del_mes ny nm)\<rparr> \<and>
            pedir_confirmacion_fecha env texto fa (reloj env) = Inr g \<longrightarrow>
            (\<exists>l \<in> set (entradas env). lower (strip l) \<in> set respuestas_este \<and> g = c \<and>
               \<not> fecha_menor c (reloj env)) \<or>
            (\<exists>l \<in> set (entradas env). lower (strip l) \<in> set respuestas_proximo \<and> g = p) \<or>
            (\<exists>l \<in> set (entradas env). lower (strip l) \<notin> set respuestas_este \<and>
               lower (strip l) \<notin> set respuestas_proximo \<and>
               (strptime_ymd env (lower (strip l)) = Some g \<or>
                dateparser_base env (lower (strip l)) = Some g)))"
proof -
  let ?ahora = "reloj env"
  obtain f where f: "resolver_fecha env texto = Inr f"
      "no_pasada ?ahora f \<or> dateparser_futuro env (lower texto) = Some f"
    using resolver_fecha_origen [OF assms(1,2)] by blast
  have "\<exists>g. (if fecha_menor f ?ahora then pedir_confirmacion_fecha env texto f ?ahora else Inr f) = Inr g
             \<and> no_pasada ?ahora g"
  proof (cases "fecha_menor f ?ahora")
    case True
    then have "dateparser_futuro env (lower texto) = Some f"
      using f(2) by (auto simp: no_pasada_def)
    then show ?thesis using True assms(4) by auto
  next
    case False
    have "fecha_valida f" using f(2) assms(3) by (auto simp: no_pasada_def)
    then show ?thesis using False by (simp add: no_pasada_def)
  qed
  then obtain g where g: "(if fecha_menor f ?ahora then pedir_confirmacion_fecha env texto f ?ahora
                           else Inr f) = Inr g" "no_pasada ?ahora g" by blast
  from procesar_fecha [OF f(1) g(1)] obtain r where
    r: "procesar_logica_negocio env texto = Inr r" "fecha r = strftime_ymd g" by blast
  have uno: "\<exists>r d. procesar_logica_negocio env texto = Inr r \<and> fecha r = strftime_ymd d \<and>
            es_formato_ymd (fecha r) \<and> fecha_valida d \<and> \<not> fecha_menor d ?ahora"
    using r g(2) strftime_ymd_formato [of g] by (auto simp: no_pasada_def)
  have dos: "pedir_confirmacion_fecha env texto fa ?ahora =
              (if \<not> fecha_menor c ?ahora then Inr c else Inl EOFError)"
    if "1 \<le> day fa" "entradas env \<noteq> []"
       "\<forall>l \<in> set (entradas env). lower (strip l) \<in> set respuestas_este"
       "c = \<lparr>year = year ?ahora, month = month ?ahora,
             day = min (day fa) (dias_del_mes (year ?ahora) (month ?ahora))\<rparr>" for fa c
    using pedir_confirmacion_este [OF assms(1,2) that] .
  have tres: "pedir_confirmacion_fecha env texto fa ?ahora =
              Inr \<lparr>year = ny, month = nm, day = min (day fa) (dias_del_mes ny nm)\<rparr>"
    if "1 \<le> day fa" "entradas env = l # ls" "lower (strip l) \<in> set respuestas_proximo"
       "ny = (if month ?ahora = 12 then year ?ahora + 1 else year ?ahora)"
       "nm = (if month ?ahora = 12 then 1 else month ?ahora + 1)" for fa l ls ny nm
    using pedir_confirmacion_proximo [OF assms(1,2) that] .
  have bucle: "pedir_confirmacion_fecha (env\<lparr>entradas := ls\<rparr>) texto fa ?ahora =
                 bucle_confirmacion env (Some c) p ?ahora ls"
    if "1 \<le> day fa"
       "c = \<lparr>year = year ?ahora, month = month ?ahora,
             day = min (day fa) (dias_del_mes (year ?ahora) (month ?ahora))\<rparr>"
       "ny = (if month ?ahora = 12 then year ?ahora + 1 else year ?ahora)"
       "nm = (if month ?ahora = 12 then 1 else month ?ahora + 1)"
       "p = \<lparr>year = ny, month = nm, day = min (day fa) (dias_del_mes ny nm)\<rparr>" for fa c ny nm p ls
    using pedir_confirmacion_bucle [OF assms(1,2) that] .
  have bucle0: "pedir_confirmacion_fecha env texto fa ?ahora =
                 bucle_confirmacion env (Some c) p ?ahora (entradas env)"
    if "1 \<le> day fa"
       "c = \<lparr>year = year ?ahora, month = month ?ahora,
             day = min (day fa) (dias_del_mes (year ?ahora) (month ?ahora))\<rparr>"
       "ny = (if month ?ahora = 12 then year ?ahora + 1 else year ?ahora)"
       "nm = (if month ?ahora = 12 then 1 else month ?ahora + 1)"
       "p = \<lparr>year = ny, month = nm, day = min (day fa) (dias_del_mes ny nm)\<rparr>" for fa c ny nm p
    using bucle [OF that, of "entradas env"] by simp
  have cuatro: "pedir_confirmacion_fecha env texto fa ?ahora =
              pedir_confirmacion_fecha
                (env\<lparr>entradas := filter (\<lambda>l. lower (strip l) \<notin> set respuestas_este) (entradas env)\<rparr>)
                texto fa ?ahora"
    if h: "1 \<le> day fa"
       "c = \<lparr>year = year ?ahora, month = month ?ahora,
             day = min (day fa) (dias_del_mes (year ?ahora) (month ?ahora))\<rparr>"
       and m: "fecha_menor c ?ahora" for fa c
    using bucle0 [OF h refl refl refl] bucle [OF h refl refl refl] bucle_filtro [OF m]
    by simp
  have cinco: "pedir_confirmacion_fecha env texto fa ?ahora =
              (if \<not> fecha_menor c ?ahora then Inr c
               else pedir_confirmacion_fecha (env\<lparr>entradas := resto\<rparr>) texto fa ?ahora)"
    if h: "1 \<le> day fa"
       "c = \<lparr>year = year ?ahora, month = month ?ahora,
             day = min (day fa) (dias_del_mes (year ?ahora) (month ?ahora))\<rparr>"
       and e: "entradas env = pre @ l # resto" and i: "\<forall>x \<in> set pre. ilegible env x"
       and l: "lower (strip l) \<in> set respuestas_este" for fa c pre l resto
  proof -
    have "\<forall>x \<in> set pre. ilegible env x \<or>
            (lower (strip x) \<in> set respuestas_este \<and> fecha_menor c ?ahora)"
      using i by simp
    from bucle_prefijo [OF this] show ?thesis
      using bucle0 [OF h refl refl refl] bucle [OF h refl refl refl, of resto] e l
      by (simp add: Let_def)
  qed
  have seis: "pedir_confirmacion_fecha env texto fa ?ahora =
              Inr \<lparr>year = ny, month = nm, day = min (day fa) (dias_del_mes ny nm)\<rparr>"
    if h: "1 \<le> day fa"
       "c = \<lparr>year = year ?ahora, month = month ?ahora,
             day = min (day fa) (dias_del_mes (year ?ahora) (month ?ahora))\<rparr>"
       and e: "entradas env = pre @ l # resto"
       and i: "\<forall>x \<in> set pre. ilegible env x \<or>
                 (lower (strip x) \<in> set respuestas_este \<and> fecha_menor c ?ahora)"
       and l: "lower (strip l) \<in> set respuestas_proximo"
       and n: "ny = (if month ?ahora = 12 then year ?ahora + 1 else year ?ahora)"
              "nm = (if month ?ahora = 12 then 1 else month ?ahora + 1)" for fa c pre l resto ny nm
    using bucle0 [OF h n refl] bucle_prefijo [OF i] e l respuestas_disjuntas [OF l]
    by (simp add: Let_def)
  have siete: "(\<exists>l \<in> set (entradas env). lower (strip l) \<in> set respuestas_este \<and> g = c \<and>
               \<not> fecha_menor c ?ahora) \<or>
            (\<exists>l \<in> set (entradas env). lower (strip l) \<in> set respuestas_proximo \<and> g = p) \<or>
            (\<exists>l \<in> set (entradas env). lower (strip l) \<notin> set respuestas_este \<and>
               lower (strip l) \<notin> set respuestas_proximo \<and>
               (strptime_ymd env (lower (strip l)) = Some g \<or>
                dateparser_base env (lower (strip l)) = Some g))"
    if h: "1 \<le> day fa"
       "c = \<lparr>year = year ?ahora, month = month ?ahora,
             day = min (day fa) (dias_del_mes (year ?ahora) (month ?ahora))\<rparr>"
       "ny = (if month ?ahora = 12 then year ?ahora + 1 else year ?ahora)"
       "nm = (if month ?ahora = 12 then 1 else month ?ahora + 1)"
       "p = \<lparr>year = ny, month = nm, day = min (day fa) (dias_del_mes ny nm)\<rparr>"
       and r: "pedir_confirmacion_fecha env texto fa ?ahora = Inr g" for fa c ny nm p g
  proof -
    have "bucle_confirmacion env (Some c) p ?ahora (entradas env) = Inr g"
      using bucle0 [OF h] r by simp
    from bucle_origen [OF this] show ?thesis .
  qed
  show ?thesis
    apply (intro conjI allI impI)
    subgoal by (rule uno)
    subgoal by (elim conjE, rule dos; assumption)
    subgoal by (elim conjE, rule tres; assumption)
    subgoal by (elim conjE, rule cuatro; assumption)
    subgoal by (elim conjE, rule cinco; assumption)
    subgoal by (elim conjE, rule seis; assumption)
    subgoal by (elim conjE, rule siete; assumption)
    done
qed

theorem C1_fecha_valida_y_no_pasada_witness:
  "\<exists>r d. procesar_logica_negocio entorno_escalada ''Ayer'' = Inr r \<and> fecha r = strftime_ymd d \<and>
          fecha r = ''2025-03-28'' \<and> es_formato_ymd (fecha r) \<and> fecha_valida d \<and>
          \<not> fecha_menor d (reloj entorno_escalada)"
proof -
  let ?d0 = "\<lparr>year = 2025, month = 2, day = 28\<rparr>"
  let ?d1 = "\<lparr>year = 2025, month = 3, day = 28\<rparr>"
  have lo: "lower ''Ayer'' = ''ayer''" by code_simp
  have dp: "dateparser_futuro entorno_escalada ''ayer'' = Some ?d0"
    by (simp add: entorno_escalada_def)
  have h1: "fecha_valida (reloj entorno_escalada)" by code_simp
  have h2: "year (reloj entorno_escalada) < 9999" by (simp add: entorno_escalada_def)
  have h3: "\<forall>f. dateparser_futuro entorno_escalada (lower ''Ayer'') = Some f \<longrightarrow> fecha_valida f"
  proof -
    have "fecha_valida ?d0" by code_simp
    then show ?thesis using lo dp by simp
  qed
  have pc: "pedir_confirmacion_fecha entorno_escalada ''Ayer'' ?d0 (reloj entorno_escalada) = Inr ?d1"
    by code_simp
  have np: "no_pasada (reloj entorno_escalada) ?d1" by code_simp
  have h4: "\<forall>f. dateparser_futuro entorno_escalada (lower ''Ayer'') = Some f \<and>
                fecha_menor f (reloj entorno_escalada) \<longrightarrow>
             (\<exists>g. pedir_confirmacion_fecha entorno_escalada ''Ayer'' f (reloj entorno_escalada) = Inr g \<and>
                   no_pasada (reloj entorno_escalada) g)"
    using lo dp pc np by simp
  have res: "resolver_fecha entorno_escalada ''Ayer'' = Inr ?d0" by code_simp
  have "fecha_menor ?d0 (reloj entorno_escalada)" by code_simp
  then have g: "(if fecha_menor ?d0 (reloj entorno_escalada)
                 then pedir_confirmacion_fecha entorno_escalada ''Ayer'' ?d0 (reloj entorno_escalada)
                 else Inr ?d0) = Inr ?d1"
    using pc by simp
  from procesar_fecha [OF res g] obtain r0 where
    r0: "procesar_logica_negocio entorno_escalada ''Ayer'' = Inr r0" "fecha r0 = strftime_ymd ?d1"
    by blast
  have s: "strftime_ymd ?d1 = ''2025-03-28''" by code_simp
  from C1_fecha_valida_y_no_pasada [OF h1 h2 h3 h4, THEN conjunct1]
  obtain r d where rd: "procesar_logica_negocio entorno_escalada ''Ayer'' = Inr r"
      "fecha r = strftime_ymd d" "es_formato_ymd (fecha r)" "fecha_valida d"
      "\<not> fecha_menor d (reloj entorno_escalada)" by blast
  have "fecha r = ''2025-03-28''" using r0 s rd(1) by simp
  then show ?thesis using rd by blast
qed

section \<open>Priority and subject of the documented example\<close>

text \<open>
  Claim C2 says that for the text
  \<open>No es urgente pero debo entregar el deber de realidad nacional\<close> the interpreter
  returns priority \<open>Baja\<close> and subject \<open>Realidad Nacional\<close>. The priority it returns is
  \<open>Media\<close>, not \<open>Baja\<close>.
\<close>

theorem C2_counterexample:
  "map_sum id prioridad
     (procesar_logica_negocio entorno_ejemplo
        ''No es urgente pero debo entregar el deber de realidad nacional'') = Inr ''Media'' \<and>
   map_sum id prioridad
     (procesar_logica_negocio entorno_ejemplo
        ''No es urgente pero debo entregar el deber de realidad nacional'') \<noteq> Inr ''Baja''"
  by code_simp

text \<open>
  Claim C2, amended: for this text every record the interpreter returns has priority
  \<open>Media\<close> and subject \<open>Realidad Nacional\<close>, in every environment, and it returns a
  record when the clock is a date before year 9999 and the date the parser reads, if any,
  is not past. The priority keeps its default: \<open>urgente\<close> is among the clean tokens but
  is negated by the \<open>no\<close> two places before it, so the priority is not raised; it is
  lowered only by a word of \<open>palabras_bajas\<close>, and the text holds none.
\<close>

theorem C2_negated_urgency_stays_media:
  assumes "T = ''No es urgente pero debo entregar el deber de realidad nacional''"
  shows "(\<forall>r. procesar_logica_negocio env T = Inr r \<longrightarrow>
            prioridad r = ''Media'' \<and> materia r = ''Realidad Nacional'') \<and>
         (fecha_valida (reloj env) \<and> year (reloj env) < 9999 \<and>
          (\<forall>f. dateparser_futuro env (lower T) = Some f \<longrightarrow> \<not> fecha_menor f (reloj env)) \<longrightarrow>
            (\<exists>r. procesar_logica_negocio env T = Inr r)) \<and>
         tokenizar T =
           [''no'', ''es'', ''urgente'', ''pero'', ''debo'', ''entregar'', ''el'', ''deber'', ''de'',
            ''realidad'', ''nacional''] \<and>
         ''urgente'' \<in> set (remover_stopwords (tokenizar T)) \<and>
         tiene_negacion (tokenizar T) ''urgente'' 3 \<and>
         list_ex (\<lambda>p. p \<in> set (remover_stopwords (tokenizar T))) palabras_bajas = False"
proof -
  have p: "detectar_prioridad (tokenizar T) (remover_stopwords (tokenizar T)) = ''Media''"
    unfolding assms by code_simp
  have m: "detectar_materia (remover_stopwords (tokenizar T)) = ''Realidad Nacional''"
    unfolding assms by code_simp
  have t: "tokenizar T =
           [''no'', ''es'', ''urgente'', ''pero'', ''debo'', ''entregar'', ''el'', ''deber'', ''de'',
            ''realidad'', ''nacional'']"
    unfolding assms by code_simp
  have u: "''urgente'' \<in> set (remover_stopwords (tokenizar T))"
    unfolding assms by code_simp
  have n: "tiene_negacion (tokenizar T) ''urgente'' 3"
    unfolding assms by code_simp
  have b: "list_ex (\<lambda>p. p \<in> set (remover_stopwords (tokenizar T))) palabras_bajas = False"
    unfolding assms by code_simp
  have campos: "\<forall>r. procesar_logica_negocio env T = Inr r \<longrightarrow>
            prioridad r = ''Media'' \<and> materia r = ''Realidad Nacional''"
    using procesar_campos [of env T] p m by auto
  have dev: "fecha_valida (reloj env) \<and> year (reloj env) < 9999 \<and>
          (\<forall>f. dateparser_futuro env (lower T) = Some f \<longrightarrow> \<not> fecha_menor f (reloj env)) \<longrightarrow>
            (\<exists>r. procesar_logica_negocio env T = Inr r)"
    using procesar_devuelve [of env T] by blast
  show ?thesis using campos dev t u n b by blast
qed

theorem C2_negated_urgency_stays_media_witness:
  "\<exists>r. procesar_logica_negocio entorno_ejemplo
          ''No es urgente pero debo entregar el deber de realidad nacional'' = Inr r \<and>
        prioridad r = ''Media'' \<and> materia r = ''Realidad Nacional''"
proof -
  let ?T = "''No es urgente pero debo entregar el deber de realidad nacional''"
  have h1: "fecha_valida (reloj entorno_ejemplo)" by code_simp
  have h2: "year (reloj entorno_ejemplo) < 9999" by code_simp
  have h3: "\<forall>f. dateparser_futuro entorno_ejemplo (lower ?T) = Some f \<longrightarrow>
                \<not> fecha_menor f (reloj entorno_ejemplo)"
    by (simp add: entorno_ejemplo_def)
  show ?thesis
    using C2_negated_urgency_stays_media [OF refl, of entorno_ejemplo] h1 h2 h3 by blast
qed

section \<open>The title of the record\<close>

text \<open>
  Claim C3, as stated: the title is the text with its first letter capitalised and every
  other character unchanged. \<open>str.capitalize\<close> also lower-cases the rest: the \<open>W\<close> of
  \<open>examen de Web\<close> comes back as \<open>w\<close>.
\<close>

theorem C3_counterexample:
  "map_sum id nombre (procesar_logica_negocio entorno_ejemplo ''examen de Web'') =
     Inr (codigos ''Examen de web'') \<and>
   map_sum id nombre (procesar_logica_negocio entorno_ejemplo ''examen de Web'') \<noteq>
     Inr (mayuscula_inicial (CHR ''e'') @ codigos ''xamen de Web'')"
  by code_simp

text \<open>
  Claim C3, amended: whenever the interpreter returns a record, its title is the text with
  the first character in title case and every later character in lower case (the empty
  text gives the empty title). The title case of a first character is its capital letter;
  for the sharp s it is \<open>Ss\<close>, for the micro sign the Greek capital mu, for y-diaeresis
  the capital Y-diaeresis U+0178.
\<close>

theorem C3_title_is_capitalize:
  assumes "procesar_logica_negocio env texto = Inr r"
  shows "nombre r = (case texto of [] \<Rightarrow> []
                     | c # cs \<Rightarrow> mayuscula_inicial c @ codigos (map minuscula cs)) \<and>
         mayuscula_inicial (CHR ''e'') = codigos ''E'' \<and>
         mayuscula_inicial (CHR 0xE1) = [0xC1] \<and>
         mayuscula_inicial (CHR 0xDF) = codigos ''Ss'' \<and>
         mayuscula_inicial (CHR 0xB5) = [0x39C] \<and>
         mayuscula_inicial (CHR 0xFF) = [0x178] \<and>
         mayuscula_inicial (CHR ''3'') = codigos ''3''"
proof -
  have "nombre r = (case texto of [] \<Rightarrow> []
                    | c # cs \<Rightarrow> mayuscula_inicial c @ codigos (map minuscula cs))"
    using procesar_nombre [OF assms] by (cases texto) simp_all
  moreover have "mayuscula_inicial (CHR ''e'') = codigos ''E''"
      "mayuscula_inicial (CHR 0xE1) = [0xC1]"
      "mayuscula_inicial (CHR 0xDF) = codigos ''Ss''"
      "mayuscula_inicial (CHR 0xB5) = [0x39C]"
      "mayuscula_inicial (CHR 0xFF) = [0x178]"
      "mayuscula_inicial (CHR ''3'') = codigos ''3''"
    by (simp_all add: mayuscula_inicial_def codigos_def codigo_def)
  ultimately show ?thesis by simp
qed

theorem C3_title_is_capitalize_witness:
  "\<exists>r. procesar_logica_negocio entorno_ejemplo ''eXAMEN de Web'' = Inr r \<and>
        nombre r = codigos ''Examen de web''"
proof -
  have "map_sum id nombre (procesar_logica_negocio entorno_ejemplo ''eXAMEN de Web'') =
          Inr (codigos ''Examen de web'')"
    by code_simp
  then obtain r where r: "procesar_logica_negocio entorno_ejemplo ''eXAMEN de Web'' = Inr r"
    by (cases "procesar_logica_negocio entorno_ejemplo ''eXAMEN de Web''") auto
  have "(case ''eXAMEN de Web'' of [] \<Rightarrow> []
         | c # cs \<Rightarrow> mayuscula_inicial c @ codigos (map minuscula cs))
          = codigos ''Examen de web''" by code_simp
  then show ?thesis using C3_title_is_capitalize [OF r] r by auto
qed

section \<open>The explicit day and month\<close>

text \<open>
  Claim C6, as stated: whenever the text matches the pattern of a day and a recognised
  month, the date is that day and month in the inferred year, the day clamped down to the
  last day of the month. Two texts that match do not get that date. A day of 0 matches
  the pattern, but \<open>_safe_date\<close> raises on it and the \<open>except\<close> clause drops the strategy.
  In \<open>Tarea 2 de historia para el 27 de febrero\<close> the pattern matches \<open>27 de febrero\<close>, but
  \<open>re.search\<close> returns the leftmost match, \<open>2 de historia\<close>, whose word is no month, and
  the strategy gives no date. In both cases the later strategies decide: here the
  last-resort default, the day after the reference date.
\<close>

theorem C6_counterexample:
  "extraer_fechas_mejorado ''0 de febrero'' = Some (''0'', ''febrero'') \<and>
   map_of meses_es ''febrero'' = Some 2 \<and>
   fecha_explicita (reloj entorno_ejemplo) ''0 de febrero'' = None \<and>
   resolver_fecha entorno_ejemplo ''0 de febrero'' = Inr \<lparr>year = 2025, month = 3, day = 2\<rparr> \<and>
   coincide_explicita ''27 de febrero'' = Some (''27'', ''febrero'') \<and>
   extraer_fechas_mejorado ''Tarea 2 de historia para el 27 de febrero'' = Some (''2'', ''historia'') \<and>
   map_of meses_es ''historia'' = None \<and>
   fecha_explicita (reloj entorno_ejemplo) ''Tarea 2 de historia para el 27 de febrero'' = None \<and>
   resolver_fecha entorno_ejemplo ''Tarea 2 de historia para el 27 de febrero'' =
     Inr \<lparr>year = 2025, month = 3, day = 2\<rparr>"
  by code_simp

text \<open>
  Claim C6, amended: let the leftmost match of the pattern in the lower-cased text, the one
  \<open>re.search\<close> returns, have the day \<open>g0\<close> and the word \<open>g1\<close>; no position before it has
  a match. When \<open>g1\<close> is a recognised month and the day number is at least 1, the date is
  in the current year, unless the month is earlier than the current month, or is the
  current month with a smaller day, and then in the next year; the day is clamped down to
  the last day of that month in that year; the date is valid and not before the reference
  date, and the interpreter returns it formatted. When \<open>g1\<close> is not a recognised month,
  or the day number is 0, the strategy gives no date, whatever follows in the text.
  \<open>27 de febrero\<close> on a 1 March resolves to 27 February of the next year.
\<close>

theorem C6_explicit_day_month:
  assumes "fecha_valida (reloj env)" "year (reloj env) < 9999"
    and "extraer_fechas_mejorado texto = Some (g0, g1)"
  shows "(\<exists>pre suf. lower texto = pre @ suf \<and> coincide_explicita suf = Some (g0, g1) \<and>
            (\<forall>k < length pre. coincide_explicita (drop k (lower texto)) = None)) \<and>
         (\<forall>m y f. map_of meses_es g1 = Some m \<and> 1 \<le> entero g0 \<and>
            y = (if m < month (reloj env) \<or> (m = month (reloj env) \<and> entero g0 < day (reloj env))
                 then year (reloj env) + 1 else year (reloj env)) \<and>
            f = \<lparr>year = y, month = m, day = min (entero g0) (dias_del_mes y m)\<rparr> \<longrightarrow>
            fecha_explicita (reloj env) texto = Some f \<and>
            resolver_fecha env texto = Inr f \<and>
            fecha_valida f \<and> \<not> fecha_menor f (reloj env) \<and>
            (\<exists>r. procesar_logica_negocio env texto = Inr r \<and> fecha r = strftime_ymd f)) \<and>
         (map_of meses_es g1 = None \<longrightarrow> fecha_explicita (reloj env) texto = None) \<and>
         (entero g0 < 1 \<longrightarrow> fecha_explicita (reloj env) texto = None) \<and>
         (1 \<le> a \<and> a < 9999 \<longrightarrow>
            fecha_explicita \<lparr>year = a, month = 3, day = 1\<rparr> ''27 de febrero'' =
              Some \<lparr>year = a + 1, month = 2, day = 27\<rparr>)"
proof -
  have izq: "\<exists>pre suf. lower texto = pre @ suf \<and> coincide_explicita suf = Some (g0, g1) \<and>
            (\<forall>k < length pre. coincide_explicita (drop k (lower texto)) = None)"
    using assms(3) buscar_explicita_izquierda [of "lower texto" "(g0, g1)"]
    by (simp add: extraer_fechas_mejorado_def Let_def)
  have mes: "fecha_explicita (reloj env) texto = Some f \<and>
            resolver_fecha env texto = Inr f \<and>
            fecha_valida f \<and> \<not> fecha_menor f (reloj env) \<and>
            (\<exists>r. procesar_logica_negocio env texto = Inr r \<and> fecha r = strftime_ymd f)"
    if h: "map_of meses_es g1 = Some m" "1 \<le> entero g0"
      "y = (if m < month (reloj env) \<or> (m = month (reloj env) \<and> entero g0 < day (reloj env))
                 then year (reloj env) + 1 else year (reloj env))"
      "f = \<lparr>year = y, month = m, day = min (entero g0) (dias_del_mes y m)\<rparr>" for m y f
  proof -
    have m: "1 \<le> m" "m \<le> 12" using meses_es_rango [OF h(1)] by simp_all
    have y: "1 \<le> y" "y \<le> 9999" using assms(1,2) h(3) by (auto simp: fecha_valida_def)
    have e: "fecha_explicita (reloj env) texto = Some f"
      using fecha_explicita_eq [OF assms(3) h(1), of "reloj env"] safe_date_ok [OF y m h(2)] h(3,4)
      by simp
    have np: "no_pasada (reloj env) f"
      using fecha_explicita_no_pasada [OF assms(1) e] .
    have r: "resolver_fecha env texto = Inr f" using resolver_fecha_explicita [OF e] .
    have p: "\<exists>r. procesar_logica_negocio env texto = Inr r \<and> fecha r = strftime_ymd f"
      using procesar_sin_escalada [OF r] np by (simp add: no_pasada_def)
    show ?thesis using e r np p by (simp add: no_pasada_def)
  qed
  have sin: "fecha_explicita (reloj env) texto = None" if "map_of meses_es g1 = None"
    using fecha_explicita_sin_mes [OF assms(3) that] .
  have cero: "fecha_explicita (reloj env) texto = None" if "entero g0 < 1"
    using fecha_explicita_dia_cero [OF assms(3) that] .
  have ej: "fecha_explicita \<lparr>year = a, month = 3, day = 1\<rparr> ''27 de febrero'' =
              Some \<lparr>year = a + 1, month = 2, day = 27\<rparr>" if "1 \<le> a" "a < 9999"
  proof -
    have x: "extraer_fechas_mejorado ''27 de febrero'' = Some (''27'', ''febrero'')" by code_simp
    have t: "map_of meses_es ''febrero'' = Some 2" by code_simp
    have n: "entero ''27'' = 27" by code_simp
    have "safe_date (a + 1) 2 27 = Some \<lparr>year = a + 1, month = 2, day = min 27 (dias_del_mes (a + 1) 2)\<rparr>"
      using that by (intro safe_date_ok) simp_all
    moreover have "min 27 (dias_del_mes (a + 1) 2) = 27" by (simp add: dias_del_mes_def)
    ultimately show ?thesis
      using fecha_explicita_eq [OF x t, of "\<lparr>year = a, month = 3, day = 1\<rparr>"] n by simp
  qed
  show ?thesis
    apply (intro conjI allI impI)
    subgoal by (rule izq)
    subgoal for m y f using mes [of m y f] by blast
    subgoal for m y f using mes [of m y f] by blast
    subgoal for m y f using mes [of m y f] by blast
    subgoal for m y f using mes [of m y f] by blast
    subgoal for m y f using mes [of m y f] by blast
    subgoal by (rule sin)
    subgoal by (rule cero)
    subgoal by (elim conjE, rule ej; assumption)
    done
qed

theorem C6_explicit_day_month_witness:
  "fecha_explicita (reloj entorno_ejemplo) ''Proyecto de BI para el 31 de Febrero'' =
     Some \<lparr>year = 2026, month = 2, day = 28\<rparr> \<and>
   resolver_fecha entorno_ejemplo ''Proyecto de BI para el 31 de Febrero'' =
     Inr \<lparr>year = 2026, month = 2, day = 28\<rparr>"
proof -
  have h1: "fecha_valida (reloj entorno_ejemplo)" by code_simp
  have h2: "year (reloj entorno_ejemplo) < 9999" by code_simp
  have h3: "extraer_fechas_mejorado ''Proyecto de BI para el 31 de Febrero'' = Some (''31'', ''febrero'')"
    by code_simp
  have h4: "map_of meses_es ''febrero'' = Some 2" by code_simp
  have h5: "1 \<le> entero ''31''" by code_simp
  have y: "2026 = (if 2 < month (reloj entorno_ejemplo) \<or>
                      (2 = month (reloj entorno_ejemplo) \<and> entero ''31'' < day (reloj entorno_ejemplo))
                   then year (reloj entorno_ejemplo) + 1 else year (reloj entorno_ejemplo))"
    by code_simp
  have f: "\<lparr>year = 2026, month = 2, day = 28\<rparr> =
           \<lparr>year = 2026, month = 2, day = min (entero ''31'') (dias_del_mes 2026 2)\<rparr>"
    by code_simp
  have "\<forall>m y f. map_of meses_es ''febrero'' = Some m \<and> 1 \<le> entero ''31'' \<and>
            y = (if m < month (reloj entorno_ejemplo) \<or>
                    (m = month (reloj entorno_ejemplo) \<and> entero ''31'' < day (reloj entorno_ejemplo))
                 then year (reloj entorno_ejemplo) + 1 else year (reloj entorno_ejemplo)) \<and>
            f = \<lparr>year = y, month = m, day = min (entero ''31'') (dias_del_mes y m)\<rparr> \<longrightarrow>
            fecha_explicita (reloj entorno_ejemplo) ''Proyecto de BI para el 31 de Febrero'' = Some f \<and>
            resolver_fecha entorno_ejemplo ''Proyecto de BI para el 31 de Febrero'' = Inr f"
    using C6_explicit_day_month [OF h1 h2 h3] by blast
  then show ?thesis using h4 h5 y f by blast
qed

section \<open>The weekday of the next week\<close>

text \<open>
  Claim C7, as stated: a text with a next-week qualifier and a weekday name resolves to
  that weekday at least a week ahead. The explicit day and month is tried first: on a
  Monday, \<open>proximo lunes 5 de enero\<close> resolves to 5 January, not to the Monday a week
  later.
\<close>

theorem C7_counterexample:
  "contiene (lower ''proximo lunes 5 de enero'') ''proximo'' \<and>
   contiene (lower ''proximo lunes 5 de enero'') ''lunes'' \<and>
   weekday (reloj entorno_lunes) = 0 \<and>
   sumar_dias (reloj entorno_lunes) 7 = Inr \<lparr>year = 2025, month = 3, day = 10\<rparr> \<and>
   resolver_fecha entorno_lunes ''proximo lunes 5 de enero'' = Inr \<lparr>year = 2026, month = 1, day = 5\<rparr>"
  by code_simp


text \<open>
  Claim C7, amended: when the explicit day and month gives no date, the text contains a
  next-week qualifier, and \<open>dia\<close> is the first weekday name of the table that occurs in
  the text, the date is the reference date plus 7 days when the offset to that weekday
  within the week is 0, and plus the offset and 7 more days otherwise: between 7 and 13
  days ahead, on that weekday, strictly after the reference date.
\<close>

theorem C7_next_weekday:
  assumes "fecha_valida (reloj env)" "year (reloj env) < 9999"
    and "fecha_explicita (reloj env) texto = None"
    and "list_ex (\<lambda>kw. contiene (lower texto) kw) palabras_proximo"
    and "find (\<lambda>dia. contiene (lower texto) dia) dias_es = Some dia"
    and "map_of dias_indice dia = Some objetivo"
    and "off = (objetivo - weekday (reloj env)) mod 7"
    and "k = (if off = 0 then 7 else off + 7)"
  shows "obtener_proximo_dia_semana dia (reloj env) True = Inr (Some (avanzar (nat k) (reloj env))) \<and>
         resolver_fecha env texto = Inr (avanzar (nat k) (reloj env)) \<and>
         sumar_dias (reloj env) (nat k) = Inr (avanzar (nat k) (reloj env)) \<and>
         toordinal (avanzar (nat k) (reloj env)) = toordinal (reloj env) + k \<and>
         7 \<le> k \<and> k \<le> 13 \<and>
         weekday (avanzar (nat k) (reloj env)) = objetivo \<and>
         fecha_menor (reloj env) (avanzar (nat k) (reloj env)) \<and>
         (\<exists>r. procesar_logica_negocio env texto = Inr r \<and>
              fecha r = strftime_ymd (avanzar (nat k) (reloj env)))"
proof -
  let ?ahora = "reloj env"
  let ?f = "avanzar (nat k) ?ahora"
  have k': "k = (if True then (if off = 0 then 7 else off + 7) else off)" using assms(8) by simp
  from obtener_proximo_dia_semana_eq [OF assms(1,2,6,7) k']
  have o: "0 \<le> k" "k \<le> 13" "obtener_proximo_dia_semana dia ?ahora True = Inr (Some ?f)"
       "no_pasada ?ahora ?f" "weekday ?f = (weekday ?ahora + k) mod 7" by simp_all
  have off: "0 \<le> off" "off < 7" using assms(7) by simp_all
  then have k7: "7 \<le> k" using assms(8) by auto
  have "dia \<in> set dias_es" using assms(5) by (auto simp: find_Some_iff)
  then have obj: "0 \<le> objetivo" "objetivo \<le> 6"
    using dias_es_en_indice [of dia] assms(6) by auto
  have "weekday ?ahora + k = (weekday ?ahora + off) + 7"
    using assms(8) by simp
  then have "(weekday ?ahora + k) mod 7 = (weekday ?ahora + off) mod 7"
    by (simp only: mod_add_self2)
  also have "\<dots> = objetivo mod 7"
    unfolding assms(7) by (simp add: mod_simps)
  also have "\<dots> = objetivo" using obj by simp
  finally have w: "weekday ?f = objetivo" using o(5) by simp
  have "nat k \<le> 30" "0 < nat k" using o(2) k7 by simp_all
  from sumar_dias_ok [OF assms(1,2) this(1)] this(2)
  have s: "sumar_dias ?ahora (nat k) = Inr ?f" "fecha_menor ?ahora ?f" by simp_all
  have pos: "year ?ahora < year ?ahora + 1 \<or>
             (year ?ahora = year ?ahora + 1 \<and> month ?ahora = 1 \<and> day ?ahora + int (nat k) \<le> 31)"
    by simp
  have "year ?ahora + 1 \<le> 9999" using assms(2) by simp
  from avanzar_invariante [OF assms(1) this pos \<open>nat k \<le> 30\<close>]
  have t: "toordinal ?f = toordinal ?ahora + k" using o(1) by simp
  have r: "resolver_fecha env texto = Inr ?f"
    using resolver_fecha_proximo [OF assms(3,4,5) o(3)] .
  have "\<not> fecha_menor ?f ?ahora" using o(4) by (simp add: no_pasada_def)
  from procesar_sin_escalada [OF r this]
  have p: "\<exists>r. procesar_logica_negocio env texto = Inr r \<and> fecha r = strftime_ymd ?f" by simp
  show ?thesis using o(2,3) k7 w s t r p by simp
qed

theorem C7_next_weekday_witness:
  "resolver_fecha entorno_lunes (''Taller pr'' @ [CHR 0xF3] @ ''ximo Lunes'') =
     Inr \<lparr>year = 2025, month = 3, day = 10\<rparr> \<and>
   weekday \<lparr>year = 2025, month = 3, day = 10\<rparr> = 0 \<and>
   weekday (reloj entorno_lunes) = 0"
proof -
  let ?t = "''Taller pr'' @ [CHR 0xF3] @ ''ximo Lunes''"
  have h1: "fecha_valida (reloj entorno_lunes)" by code_simp
  have h2: "year (reloj entorno_lunes) < 9999" by code_simp
  have h3: "fecha_explicita (reloj entorno_lunes) ?t = None" by code_simp
  have h4: "list_ex (\<lambda>kw. contiene (lower ?t) kw) palabras_proximo" by code_simp
  have h5: "find (\<lambda>dia. contiene (lower ?t) dia) dias_es = Some ''lunes''" by code_simp
  have h6: "map_of dias_indice ''lunes'' = Some 0" by code_simp
  have h7: "0 = (0 - weekday (reloj entorno_lunes)) mod 7" by code_simp
  have h8: "(7::int) = (if (0::int) = 0 then 7 else 0 + 7)" by simp
  have a: "avanzar (nat 7) (reloj entorno_lunes) = \<lparr>year = 2025, month = 3, day = 10\<rparr>" by code_simp
  have w: "weekday (reloj entorno_lunes) = 0" by code_simp
  show ?thesis
    using C7_next_weekday [OF h1 h2 h3 h4 h5 h6 h7 h8] a w by simp
qed

section \<open>Empty and blank input\<close>

text \<open>
  Claim C9: for an empty text or a text of whitespace only, tokenisation gives no token,
  the subject is the empty string, the type \<open>Deber\<close>, the priority \<open>Media\<close>, the date
  is the reference date plus one day, and the interpreter returns a record without raising.
  The fallback parser is outside the repository: it is taken to find no date in such a
  text. The reference instant is a \<open>datetime\<close> before year 9999.
\<close>

theorem C9_blank_input_defaults:
  assumes "\<forall>c \<in> set texto. es_espacio c"
    and "fecha_valida (reloj env)" "year (reloj env) < 9999"
    and "dateparser_futuro env (lower texto) = None"
  shows "tokenizar texto = [] \<and>
         detectar_materia (remover_stopwords (tokenizar texto)) = [] \<and>
         detectar_tipo (remover_stopwords (tokenizar texto)) = codigos ''Deber'' \<and>
         detectar_prioridad (tokenizar texto) (remover_stopwords (tokenizar texto)) = ''Media'' \<and>
         resolver_fecha env texto = sumar_dias (reloj env) 1 \<and>
         sumar_dias (reloj env) 1 = Inr (dia_siguiente (reloj env)) \<and>
         procesar_logica_negocio env texto =
           Inr \<lparr>nombre = capitalize texto, fecha = strftime_ymd (dia_siguiente (reloj env)),
                tipo = codigos ''Deber'', prioridad = ''Media'', materia = []\<rparr>"
proof -
  let ?ahora = "reloj env"
  have tk: "tokenizar texto = []" using tokenizar_blancos [OF assms(1)] .
  have lo: "lower texto = texto" using lower_blancos [OF assms(1)] .
  have "\<forall>c \<in> set texto. \<not> es_digito c" using assms(1) espacio_no_digito by blast
  then have ex: "fecha_explicita ?ahora texto = None"
    using buscar_explicita_sin_digitos
    by (simp add: fecha_explicita_def extraer_fechas_mejorado_def lo)
  have kw: "\<not> list_ex (\<lambda>kw. contiene texto kw) palabras_proximo"
           "\<not> list_ex (\<lambda>kw. contiene texto kw) palabras_este"
    using sin_palabras_clave [OF assms(1)] by simp_all
  have r: "resolver_fecha env texto = sumar_dias ?ahora 1"
    using ex kw assms(4)
    by (simp add: resolver_fecha_def Let_def fecha_dia_semana_def lo del: One_nat_def)
  have "(1::nat) \<le> 30" by simp
  from sumar_dias_ok [OF assms(2,3) this]
  have s: "sumar_dias ?ahora 1 = Inr (avanzar 1 ?ahora)" "\<not> fecha_menor (avanzar 1 ?ahora) ?ahora"
    by simp_all
  have a: "avanzar 1 ?ahora = dia_siguiente ?ahora" by simp
  have r': "resolver_fecha env texto = Inr (dia_siguiente ?ahora)" using r s(1) a by simp
  have "\<not> fecha_menor (dia_siguiente ?ahora) ?ahora" using s(2) a by simp
  from procesar_sin_escalada [OF r' this]
  have p: "procesar_logica_negocio env texto =
           Inr \<lparr>nombre = capitalize texto, fecha = strftime_ymd (dia_siguiente ?ahora),
                tipo = codigos ''Deber'', prioridad = ''Media'', materia = []\<rparr>"
    by (simp add: tk clasificadores_vacios)
  show ?thesis
    using tk r s(1) a p by (simp add: clasificadores_vacios del: One_nat_def)
qed

theorem C9_blank_input_defaults_witness:
  "procesar_logica_negocio entorno_ejemplo [CHR '' '', CHR 0x09, CHR 0xA0] =
     Inr \<lparr>nombre = codigos [CHR '' '', CHR 0x09, CHR 0xA0], fecha = ''2025-03-02'',
          tipo = codigos ''Deber'', prioridad = ''Media'', materia = []\<rparr>"
proof -
  let ?t = "[CHR '' '', CHR 0x09, CHR 0xA0]"
  have h1: "\<forall>c \<in> set ?t. es_espacio c" by (simp add: es_espacio_def codigo_def)
  have h2: "fecha_valida (reloj entorno_ejemplo)" by code_simp
  have h3: "year (reloj entorno_ejemplo) < 9999" by code_simp
  have h4: "dateparser_futuro entorno_ejemplo (lower ?t) = None" by (simp add: entorno_ejemplo_def)
  have c: "capitalize ?t = codigos ?t" by code_simp
  have f: "strftime_ymd (dia_siguiente (reloj entorno_ejemplo)) = ''2025-03-02''" by code_simp
  show ?thesis
    using C9_blank_input_defaults [OF h1 h2 h3 h4] c f by simp
qed

end
